theory Spec2Isabelle
  imports Complex_Main "HOL-Library.Word"
begin

section \<open>The stored procedure \<open>update_sales_invoice_atomic\<close>\<close>

text \<open>
  The procedure is PL/pgSQL: one \<^verbatim>\<open>DELETE\<close>, one \<^verbatim>\<open>UPDATE ... RETURNING id INTO v_result\<close>,
  one \<^verbatim>\<open>INSERT ... SELECT ... FROM unnest(p_new_items)\<close> and \<^verbatim>\<open>RETURN v_result\<close>. It has no
  \<^verbatim>\<open>EXCEPTION\<close> block and no \<^verbatim>\<open>RAISE\<close>. The embedding passes the database explicitly and
  keeps the state reached when a statement raises, so that the rollback of the calling
  statement is a function of its own.
\<close>

subsection \<open>SQL values\<close>

type_synonym uuid = "128 word"
type_synonym date = int
type_synonym numeric = rat
type_synonym int4 = "32 word"
type_synonym timestamptz = int

text \<open>
  A column or an expression of SQL type \<open>t\<close> is a \<open>t option\<close>, \<open>None\<close> being \<^verbatim>\<open>NULL\<close>.

  The procedure reads its \<^verbatim>\<open>JSONB\<close> arguments only through \<^verbatim>\<open>->> 'key'\<close>, which gives
  \<^verbatim>\<open>NULL\<close> for a key that is absent or holds JSON \<^verbatim>\<open>null\<close>, and otherwise the value as text.
  So a JSON object is a map from keys to \<open>JNull\<close> or to \<open>JText t\<close>, a value other than
  \<^verbatim>\<open>null\<close> whose text is \<open>t\<close>. A \<^verbatim>\<open>JSONB\<close> argument that is \<^verbatim>\<open>NULL\<close> or is no object gives
  \<^verbatim>\<open>NULL\<close> for every key, as the empty map does.
\<close>

datatype jvalue = JNull | JText string

type_synonym jsonb = "string \<rightharpoonup> jvalue"

datatype error = NotFound | TypeCoercionError | ReferentialIntegrityError | ConstraintViolation

text \<open>\<^verbatim>\<open>j ->> k\<close>\<close>

definition get_text :: "jsonb \<Rightarrow> string \<Rightarrow> string option" where
  "get_text j k = (case j k of None \<Rightarrow> None | Some JNull \<Rightarrow> None | Some (JText s) \<Rightarrow> Some s)"

text \<open>\<^verbatim>\<open>(x)::t\<close>, for the input function \<open>f\<close> of \<open>t\<close>: \<^verbatim>\<open>NULL\<close> casts to \<^verbatim>\<open>NULL\<close>, a text that
  \<open>f\<close> rejects raises.\<close>

fun cast :: "(string \<Rightarrow> 'a option) \<Rightarrow> string option \<Rightarrow> error + 'a option" where
  "cast f None = Inr None"
| "cast f (Some s) = (case f s of None \<Rightarrow> Inl TypeCoercionError | Some v \<Rightarrow> Inr (Some v))"

text \<open>\<^verbatim>\<open>COALESCE(x, y)\<close>\<close>

fun coalesce :: "'a option \<Rightarrow> 'a option \<Rightarrow> 'a option" where
  "coalesce (Some v) y = Some v"
| "coalesce None y = y"

text \<open>\<^verbatim>\<open>NULLIF(x, t)\<close> for a text constant \<open>t\<close>\<close>

fun nullif :: "string option \<Rightarrow> string \<Rightarrow> string option" where
  "nullif None t = None"
| "nullif (Some s) t = (if s = t then None else Some s)"

text \<open>Sequencing of expressions that may raise.\<close>

fun bind :: "error + 'a \<Rightarrow> ('a \<Rightarrow> error + 'b) \<Rightarrow> error + 'b" where
  "bind (Inl e) f = Inl e"
| "bind (Inr v) f = f v"

subsection \<open>Tables\<close>

text \<open>
  A row of \<^verbatim>\<open>sales_invoices\<close>: the twelve columns the procedure assigns; the record's
  extension holds every other column of the table. The key of the map below is the
  column \<^verbatim>\<open>id\<close>. The column \<^verbatim>\<open>notes\<close> is the field \<open>notes_text\<close>, and the column
  \<^verbatim>\<open>total_amount\<close> of an item row the field \<open>item_total_amount\<close>.
\<close>

record sales_invoice =
  invoice_date :: "date option"
  due_date :: "date option"
  customer_id :: "uuid option"
  subtotal :: "numeric option"
  tax_amount :: "numeric option"
  total_amount :: "numeric option"
  discount_amount :: "numeric option"
  po_number :: "string option"
  payment_terms_days :: "int4 option"
  notes_text :: "string option"
  payment_terms :: "string option"
  updated_at :: "timestamptz option"

text \<open>A row of \<^verbatim>\<open>sales_invoice_items\<close>: the nine columns of the \<^verbatim>\<open>INSERT\<close>.\<close>

record sales_invoice_item =
  invoice_id :: "uuid option"
  product_id :: "uuid option"
  batch_id :: "uuid option"
  quantity :: "numeric option"
  unit_price :: "numeric option"
  tax_rate :: "numeric option"
  item_total_amount :: "numeric option"
  delivery_challan_item_id :: "uuid option"
  max_quantity :: "numeric option"

text \<open>
  The database: the two tables the procedure names, and \<open>ext\<close>, everything else that the
  triggers and constraints of the two tables read and write (the stock counters among
  them). The rows of \<^verbatim>\<open>sales_invoice_items\<close> are kept in scan order.
\<close>

record ('m, 's) database =
  sales_invoices :: "uuid \<rightharpoonup> 'm sales_invoice_scheme"
  sales_invoice_items :: "sales_invoice_item list"
  ext :: 's

text \<open>
  What the procedure uses and the migration does not define: the input functions of the
  four types, \<^verbatim>\<open>NOW()\<close>, whether the plan of a statement evaluates the casts of its
  parameters (which depends on the plans the session has cached), and the triggers and
  constraints of the two tables. A trigger reads the database, and either raises or gives
  the new \<open>ext\<close>.
\<close>

record ('m, 's) env =
  to_date :: "string \<Rightarrow> date option"
  to_uuid :: "string \<Rightarrow> uuid option"
  to_numeric :: "string \<Rightarrow> numeric option"
  to_integer :: "string \<Rightarrow> int4 option"
  now :: timestamptz
  plan_time_casts :: bool
  on_delete :: "sales_invoice_item \<Rightarrow> ('m, 's) database \<Rightarrow> error + 's"
  on_update :: "uuid \<Rightarrow> 'm sales_invoice_scheme \<Rightarrow> ('m, 's) database \<Rightarrow> error + 's"
  on_insert :: "sales_invoice_item \<Rightarrow> ('m, 's) database \<Rightarrow> error + 's"

subsection \<open>The three statements\<close>

text \<open>\<^verbatim>\<open>invoice_id = p_invoice_id\<close>: true only when both sides are not \<^verbatim>\<open>NULL\<close> and equal.\<close>

definition sql_eq :: "'a option \<Rightarrow> 'a option \<Rightarrow> bool" where
  "sql_eq a b = (case (a, b) of (Some x, Some y) \<Rightarrow> x = y | _ \<Rightarrow> False)"

text \<open>The row triggers of a statement fire one row after the other, each on the state the
  one before left; the first that raises stops the statement.\<close>

fun fire :: "('r \<Rightarrow> ('m, 's) database \<Rightarrow> error + 's) \<Rightarrow> 'r list \<Rightarrow> ('m, 's) database
    \<Rightarrow> (error + unit) \<times> ('m, 's) database" where
  "fire h [] db = (Inr (), db)"
| "fire h (r # rs) db =
     (case h r db of
        Inl e \<Rightarrow> (Inl e, db)
      | Inr s \<Rightarrow> fire h rs (db\<lparr>ext := s\<rparr>))"

text \<open>Step 1: \<^verbatim>\<open>DELETE FROM sales_invoice_items WHERE invoice_id = p_invoice_id\<close>.\<close>

definition delete_items :: "('m, 's) env \<Rightarrow> uuid option \<Rightarrow> ('m, 's) database
    \<Rightarrow> (error + unit) \<times> ('m, 's) database" where
  "delete_items en p db =
     fire (on_delete en)
       (filter (\<lambda>r. sql_eq (invoice_id r) p) (sales_invoice_items db))
       (db\<lparr>sales_invoice_items :=
             filter (\<lambda>r. \<not> sql_eq (invoice_id r) p) (sales_invoice_items db)\<rparr>)"

text \<open>The \<^verbatim>\<open>SET\<close> list of step 2, in the order of the source, for the row \<open>hdr\<close>.\<close>

definition set_clause :: "('m, 's) env \<Rightarrow> jsonb \<Rightarrow> 'm sales_invoice_scheme
    \<Rightarrow> error + 'm sales_invoice_scheme" where
  "set_clause en u hdr =
     bind (cast (to_date en) (get_text u ''invoice_date'')) (\<lambda>c1.
     bind (cast (to_date en) (get_text u ''due_date'')) (\<lambda>c2.
     bind (cast (to_uuid en) (get_text u ''customer_id'')) (\<lambda>c3.
     bind (cast (to_numeric en) (get_text u ''subtotal'')) (\<lambda>c4.
     bind (cast (to_numeric en) (get_text u ''tax_amount'')) (\<lambda>c5.
     bind (cast (to_numeric en) (get_text u ''total_amount'')) (\<lambda>c6.
     bind (cast (to_numeric en) (get_text u ''discount_amount'')) (\<lambda>c7.
     bind (cast (to_integer en) (get_text u ''payment_terms_days'')) (\<lambda>c9.
     Inr (hdr\<lparr>invoice_date := coalesce c1 (invoice_date hdr),
              due_date := coalesce c2 (due_date hdr),
              customer_id := coalesce c3 (customer_id hdr),
              subtotal := coalesce c4 (subtotal hdr),
              tax_amount := coalesce c5 (tax_amount hdr),
              total_amount := coalesce c6 (total_amount hdr),
              discount_amount := coalesce c7 (discount_amount hdr),
              po_number := coalesce (get_text u ''po_number'') (po_number hdr),
              payment_terms_days := coalesce c9 (payment_terms_days hdr),
              notes_text := coalesce (get_text u ''notes'') (notes_text hdr),
              payment_terms := coalesce (get_text u ''payment_terms'') (payment_terms hdr),
              updated_at := Some (now en)\<rparr>)))))))))"

text \<open>A cast of \<open>x\<close> by the input function \<open>f\<close> fails: \<open>x\<close> is not \<^verbatim>\<open>NULL\<close> and \<open>f\<close> rejects it.\<close>

definition coercion_fails :: "(string \<Rightarrow> 'a option) \<Rightarrow> string option \<Rightarrow> bool" where
  "coercion_fails f x = (case x of None \<Rightarrow> False | Some s \<Rightarrow> f s = None)"

text \<open>
  The casts of the \<^verbatim>\<open>SET\<close> list to \<^verbatim>\<open>uuid\<close>, \<^verbatim>\<open>numeric\<close> and \<^verbatim>\<open>integer\<close> read the patch only,
  and their input functions are immutable: when PostgreSQL plans the \<^verbatim>\<open>UPDATE\<close> for the values of
  the parameters it evaluates them in the plan, before any row is looked at. The cast to
  \<^verbatim>\<open>date\<close> depends on the date style of the session and is evaluated row by row. One of
  the casts evaluated in the plan fails:
\<close>

definition folded_cast_fails :: "('m, 's) env \<Rightarrow> jsonb \<Rightarrow> bool" where
  "folded_cast_fails en u \<longleftrightarrow>
     coercion_fails (to_uuid en) (get_text u ''customer_id'') \<or>
     coercion_fails (to_numeric en) (get_text u ''subtotal'') \<or>
     coercion_fails (to_numeric en) (get_text u ''tax_amount'') \<or>
     coercion_fails (to_numeric en) (get_text u ''total_amount'') \<or>
     coercion_fails (to_numeric en) (get_text u ''discount_amount'') \<or>
     coercion_fails (to_integer en) (get_text u ''payment_terms_days'')"

text \<open>
  Step 2: \<^verbatim>\<open>UPDATE sales_invoices SET ... WHERE id = p_invoice_id RETURNING id INTO v_result\<close>.
  The statement is planned when the body reaches it, after step 1. Where the plan evaluates
  the casts (\<open>plan_time_casts\<close>), a malformed value raises whether or not a row matches.
  Otherwise, with no row of that \<^verbatim>\<open>id\<close> the \<^verbatim>\<open>SET\<close> list is not evaluated, nothing changes
  and \<^verbatim>\<open>v_result\<close> is \<^verbatim>\<open>NULL\<close>.
\<close>

definition update_header :: "('m, 's) env \<Rightarrow> uuid option \<Rightarrow> jsonb \<Rightarrow> ('m, 's) database
    \<Rightarrow> (error + uuid option) \<times> ('m, 's) database" where
  "update_header en p u db =
     (if plan_time_casts en \<and> folded_cast_fails en u then (Inl TypeCoercionError, db)
      else
       (case p of
          None \<Rightarrow> (Inr None, db)
        | Some i \<Rightarrow>
            (case sales_invoices db i of
               None \<Rightarrow> (Inr None, db)
             | Some hdr \<Rightarrow>
                 (case set_clause en u hdr of
                    Inl e \<Rightarrow> (Inl e, db)
                  | Inr hdr' \<Rightarrow>
                      (case fire (on_update en i) [hdr]
                              (db\<lparr>sales_invoices := (sales_invoices db)(i \<mapsto> hdr')\<rparr>) of
                         (Inl e, db') \<Rightarrow> (Inl e, db')
                       | (Inr _, db') \<Rightarrow> (Inr (Some i), db'))))))"

text \<open>The \<^verbatim>\<open>SELECT\<close> list of step 3 for one element of \<^verbatim>\<open>unnest(p_new_items)\<close>.\<close>

definition item_row :: "('m, 's) env \<Rightarrow> uuid option \<Rightarrow> jsonb \<Rightarrow> error + sales_invoice_item" where
  "item_row en p item =
     bind (cast (to_uuid en) (get_text item ''product_id'')) (\<lambda>c2.
     bind (cast (to_uuid en) (get_text item ''batch_id'')) (\<lambda>c3.
     bind (cast (to_numeric en) (get_text item ''quantity'')) (\<lambda>c4.
     bind (cast (to_numeric en) (get_text item ''unit_price'')) (\<lambda>c5.
     bind (cast (to_numeric en) (get_text item ''tax_rate'')) (\<lambda>c6.
     bind (cast (to_numeric en) (get_text item ''total_amount'')) (\<lambda>c7.
     bind (cast (to_uuid en) (nullif (get_text item ''delivery_challan_item_id'') '''')) (\<lambda>c8.
     bind (cast (to_numeric en) (get_text item ''max_quantity'')) (\<lambda>c9.
     Inr \<lparr>invoice_id = p, product_id = c2, batch_id = c3, quantity = c4, unit_price = c5,
          tax_rate = c6, item_total_amount = c7, delivery_challan_item_id = c8,
          max_quantity = c9\<rparr>))))))))"

text \<open>The rows of the \<^verbatim>\<open>INSERT\<close> are computed and stored one after the other; a cast that
  raises stops the statement with the rows before it stored.\<close>

fun insert_rows :: "('m, 's) env \<Rightarrow> uuid option \<Rightarrow> jsonb list \<Rightarrow> ('m, 's) database
    \<Rightarrow> (error + sales_invoice_item list) \<times> ('m, 's) database" where
  "insert_rows en p [] db = (Inr [], db)"
| "insert_rows en p (item # rest) db =
     (case item_row en p item of
        Inl e \<Rightarrow> (Inl e, db)
      | Inr row \<Rightarrow>
          (case insert_rows en p rest
                  (db\<lparr>sales_invoice_items := sales_invoice_items db @ [row]\<rparr>) of
             (Inl e, db') \<Rightarrow> (Inl e, db')
           | (Inr rows, db') \<Rightarrow> (Inr (row # rows), db')))"

text \<open>
  Step 3: \<^verbatim>\<open>INSERT INTO sales_invoice_items (...) SELECT ... FROM unnest(p_new_items)\<close>.
  The triggers fire when every row is stored, as \<^verbatim>\<open>AFTER ROW\<close> triggers and foreign keys do. A
  \<^verbatim>\<open>BEFORE ROW\<close> trigger or a column constraint acts on each row between the casts: on an
  \<^verbatim>\<open>INSERT\<close> that fails, the error returned and the rows a trigger has seen may then differ
  from the ones here; a call that fails is rolled back in both cases.
\<close>

definition insert_items :: "('m, 's) env \<Rightarrow> uuid option \<Rightarrow> jsonb list \<Rightarrow> ('m, 's) database
    \<Rightarrow> (error + unit) \<times> ('m, 's) database" where
  "insert_items en p its db =
     (case insert_rows en p its db of
        (Inl e, db') \<Rightarrow> (Inl e, db')
      | (Inr rows, db') \<Rightarrow> fire (on_insert en) rows db')"

subsection \<open>The procedure and its call\<close>

text \<open>The body between \<^verbatim>\<open>BEGIN\<close> and \<^verbatim>\<open>END\<close>. The second component is the state reached,
  also when a statement raised.\<close>

definition update_sales_invoice_atomic :: "('m, 's) env \<Rightarrow> uuid option \<Rightarrow> jsonb \<Rightarrow> jsonb list
    \<Rightarrow> ('m, 's) database \<Rightarrow> (error + uuid option) \<times> ('m, 's) database" where
  "update_sales_invoice_atomic en p_invoice_id p_invoice_updates p_new_items db =
     (case delete_items en p_invoice_id db of
        (Inl e, db1) \<Rightarrow> (Inl e, db1)
      | (Inr _, db1) \<Rightarrow>
          (case update_header en p_invoice_id p_invoice_updates db1 of
             (Inl e, db2) \<Rightarrow> (Inl e, db2)
           | (Inr v_result, db2) \<Rightarrow>
               (case insert_items en p_invoice_id p_new_items db2 of
                  (Inl e, db3) \<Rightarrow> (Inl e, db3)
                | (Inr _, db3) \<Rightarrow> (Inr v_result, db3))))"

text \<open>
  A call of the procedure is one SQL statement: when the body raises, the statement is
  rolled back and the database is the one before the call. The result \<open>Inr None\<close> is a
  call that returned \<^verbatim>\<open>NULL\<close>.
\<close>

definition apply_invoice_update :: "('m, 's) env \<Rightarrow> uuid option \<Rightarrow> jsonb \<Rightarrow> jsonb list
    \<Rightarrow> ('m, 's) database \<Rightarrow> (error + uuid option) \<times> ('m, 's) database" where
  "apply_invoice_update en p_invoice_id p_invoice_updates p_new_items db =
     (case update_sales_invoice_atomic en p_invoice_id p_invoice_updates p_new_items db of
        (Inl e, db') \<Rightarrow> (Inl e, db)
      | (Inr r, db') \<Rightarrow> (Inr r, db'))"

subsection \<open>Coercion failures\<close>

text \<open>Some cast of the \<^verbatim>\<open>SET\<close> list fails on the patch \<open>u\<close>.\<close>

definition patch_coercion_fails :: "('m, 's) env \<Rightarrow> jsonb \<Rightarrow> bool" where
  "patch_coercion_fails en u \<longleftrightarrow>
     coercion_fails (to_date en) (get_text u ''invoice_date'') \<or>
     coercion_fails (to_date en) (get_text u ''due_date'') \<or>
     coercion_fails (to_uuid en) (get_text u ''customer_id'') \<or>
     coercion_fails (to_numeric en) (get_text u ''subtotal'') \<or>
     coercion_fails (to_numeric en) (get_text u ''tax_amount'') \<or>
     coercion_fails (to_numeric en) (get_text u ''total_amount'') \<or>
     coercion_fails (to_numeric en) (get_text u ''discount_amount'') \<or>
     coercion_fails (to_integer en) (get_text u ''payment_terms_days'')"

text \<open>Some cast of the \<^verbatim>\<open>SELECT\<close> list fails on the item \<open>item\<close>.\<close>

definition item_coercion_fails :: "('m, 's) env \<Rightarrow> jsonb \<Rightarrow> bool" where
  "item_coercion_fails en item \<longleftrightarrow>
     coercion_fails (to_uuid en) (get_text item ''product_id'') \<or>
     coercion_fails (to_uuid en) (get_text item ''batch_id'') \<or>
     coercion_fails (to_numeric en) (get_text item ''quantity'') \<or>
     coercion_fails (to_numeric en) (get_text item ''unit_price'') \<or>
     coercion_fails (to_numeric en) (get_text item ''tax_rate'') \<or>
     coercion_fails (to_numeric en) (get_text item ''total_amount'') \<or>
     coercion_fails (to_uuid en) (nullif (get_text item ''delivery_challan_item_id'') '''') \<or>
     coercion_fails (to_numeric en) (get_text item ''max_quantity'')"

text \<open>The keys of the patch that the \<^verbatim>\<open>SET\<close> list reads.\<close>

definition updatable_keys :: "string set" where
  "updatable_keys = {''invoice_date'', ''due_date'', ''customer_id'', ''subtotal'', ''tax_amount'',
     ''total_amount'', ''discount_amount'', ''po_number'', ''payment_terms_days'', ''notes'',
     ''payment_terms''}"

text \<open>The header table without the column \<^verbatim>\<open>updated_at\<close>.\<close>

definition headers_sans_updated_at :: "('m, 's) database \<Rightarrow> uuid \<rightharpoonup> 'm sales_invoice_scheme" where
  "headers_sans_updated_at db = (\<lambda>j. map_option (\<lambda>h. h\<lparr>updated_at := None\<rparr>) (sales_invoices db j))"

subsection \<open>Observing the order of the row events\<close>

text \<open>Triggers that do nothing but append the event they see to a journal kept in \<open>ext\<close>.\<close>

datatype event = Deleted sales_invoice_item | Updated uuid | Inserted sales_invoice_item

definition with_journal :: "('m, event list) env \<Rightarrow> ('m, event list) env" where
  "with_journal en = en
     \<lparr>on_delete := (\<lambda>r db. Inr (ext db @ [Deleted r])),
      on_update := (\<lambda>i h db. Inr (ext db @ [Updated i])),
      on_insert := (\<lambda>r db. Inr (ext db @ [Inserted r]))\<rparr>"

subsection \<open>The stock ledger\<close>

text \<open>
  Modelled from the spec: the stock triggers of \<^verbatim>\<open>sales_invoice_items\<close>, which the migration
  names in its comments and does not define. \<open>ext\<close> is the on-hand quantity of each
  product. Deleting an item row restores its quantity to its product; inserting one
  deducts it, and is rejected when the quantity is above the row's maximum-quantity
  ceiling or above the quantity on hand (stock never goes negative). A row with no product
  or no quantity moves no stock.
\<close>

definition stock_on_delete :: "sales_invoice_item \<Rightarrow> ('m, uuid \<Rightarrow> numeric) database
    \<Rightarrow> error + (uuid \<Rightarrow> numeric)" where
  "stock_on_delete r db =
     (case (product_id r, quantity r) of
        (Some pr, Some q) \<Rightarrow> Inr ((ext db)(pr := ext db pr + q))
      | _ \<Rightarrow> Inr (ext db))"

text \<open>Modelled from the spec: the trigger on the insertion of an item row, absent from the
  migration. It deducts the quantity, and rejects a quantity above the ceiling or above the
  quantity on hand.\<close>

definition stock_on_insert :: "sales_invoice_item \<Rightarrow> ('m, uuid \<Rightarrow> numeric) database
    \<Rightarrow> error + (uuid \<Rightarrow> numeric)" where
  "stock_on_insert r db =
     (case (product_id r, quantity r) of
        (Some pr, Some q) \<Rightarrow>
          if (case max_quantity r of None \<Rightarrow> False | Some m \<Rightarrow> m < q) \<or> ext db pr < q
          then Inl ConstraintViolation
          else Inr ((ext db)(pr := ext db pr - q))
      | _ \<Rightarrow> Inr (ext db))"

text \<open>Modelled from the spec: an environment whose triggers are those of the stock ledger;
  the update of a header row moves no stock.\<close>

definition with_stock_ledger :: "('m, uuid \<Rightarrow> numeric) env \<Rightarrow> ('m, uuid \<Rightarrow> numeric) env" where
  "with_stock_ledger en = en
     \<lparr>on_delete := stock_on_delete,
      on_update := (\<lambda>i h db. Inr (ext db)),
      on_insert := stock_on_insert\<rparr>"

subsection \<open>An environment and a database for examples\<close>

text \<open>
  Input functions that accept a few texts and reject every other one, among them the
  empty text, plans that leave the casts to the rows, and triggers that accept every row and
  change nothing.
\<close>

definition demo_env :: "('m, 's) env" where
  "demo_env =
     \<lparr>to_date = map_of [(''2024-01-15'', 8780), (''2024-02-14'', 8810)],
      to_uuid = map_of [(''00000000-0000-0000-0000-000000000001'', 1),
                        (''00000000-0000-0000-0000-000000000002'', 2)],
      to_numeric = map_of [(''50.00'', 50), (''3'', 3), (''5'', 5), (''100'', 100)],
      to_integer = map_of [(''30'', 30)],
      now = 1000,
      plan_time_casts = False,
      on_delete = (\<lambda>r db. Inr (ext db)),
      on_update = (\<lambda>i h db. Inr (ext db)),
      on_insert = (\<lambda>r db. Inr (ext db))\<rparr>"

definition demo_header :: sales_invoice where
  "demo_header =
     \<lparr>invoice_date = Some 8700, due_date = None, customer_id = Some 2, subtotal = Some 100,
      tax_amount = Some 0, total_amount = Some 100, discount_amount = None,
      po_number = Some ''PO-1'', payment_terms_days = None, notes_text = Some ''n'',
      payment_terms = None, updated_at = Some 5\<rparr>"

definition demo_old_item :: sales_invoice_item where
  "demo_old_item =
     \<lparr>invoice_id = Some 1, product_id = Some 2, batch_id = None, quantity = Some 3,
      unit_price = Some 5, tax_rate = None, item_total_amount = Some 15,
      delivery_challan_item_id = None, max_quantity = None\<rparr>"

definition demo_item :: jsonb where
  "demo_item = [''product_id'' \<mapsto> JText ''00000000-0000-0000-0000-000000000002'',
                ''quantity'' \<mapsto> JText ''5'', ''unit_price'' \<mapsto> JText ''3'',
                ''delivery_challan_item_id'' \<mapsto> JText '''']"

definition demo_db :: "'s \<Rightarrow> (unit, 's) database" where
  "demo_db s = \<lparr>sales_invoices = [1 \<mapsto> demo_header], sales_invoice_items = [demo_old_item],
                ext = s\<rparr>"

section \<open>Properties\<close>

lemma fire_tables:
  "fire h rs db = (res, db') \<Longrightarrow>
     sales_invoices db' = sales_invoices db \<and> sales_invoice_items db' = sales_invoice_items db"
  by (induction rs arbitrary: db) (auto split: sum.splits)

lemma delete_items_tables:
  "delete_items en p db = (res, db') \<Longrightarrow>
     sales_invoices db' = sales_invoices db \<and>
     sales_invoice_items db' = filter (\<lambda>r. \<not> sql_eq (invoice_id r) p) (sales_invoice_items db)"
  unfolding delete_items_def by (auto dest: fire_tables)

lemma update_header_items:
  "update_header en p u db = (res, db') \<Longrightarrow> sales_invoice_items db' = sales_invoice_items db"
  unfolding update_header_def
  by (auto split: option.splits sum.splits prod.splits if_splits dest: fire_tables)

lemma update_header_missing:
  "(\<forall>i. p = Some i \<longrightarrow> sales_invoices db i = None) \<Longrightarrow> update_header en p u db = (res, db') \<Longrightarrow>
     db' = db \<and> (res = Inr None \<or> res = Inl TypeCoercionError \<and> folded_cast_fails en u)"
  unfolding update_header_def by (auto split: option.splits if_splits)


lemma update_header_others:
  "update_header en p u db = (res, db') \<Longrightarrow> p \<noteq> Some j \<Longrightarrow> sales_invoices db' j = sales_invoices db j"
  unfolding update_header_def
  by (auto split: option.splits sum.splits prod.splits if_splits dest: fire_tables)

lemma update_header_existing:
  "sales_invoices db i = Some hdr \<Longrightarrow> update_header en (Some i) u db = (res, db') \<Longrightarrow>
     (\<exists>e. res = Inl e \<and> db' = db) \<or>
     (\<exists>hdr'. set_clause en u hdr = Inr hdr' \<and> sales_invoices db' i = Some hdr' \<and>
        (res = Inr (Some i) \<or> (\<exists>e. res = Inl e)))"
  unfolding update_header_def
  by (auto split: option.splits sum.splits prod.splits if_splits dest: fire_tables)

lemma insert_rows_state:
  "insert_rows en p its db = (res, db') \<Longrightarrow>
     sales_invoices db' = sales_invoices db \<and> ext db' = ext db \<and>
     (\<exists>rows. sales_invoice_items db' = sales_invoice_items db @ rows \<and>
             map Inr rows = map (item_row en p) (take (length rows) its) \<and>
             (case res of Inr rs \<Rightarrow> rs = rows \<and> length rows = length its
                        | Inl e \<Rightarrow> length rows < length its \<and> item_row en p (its ! length rows) = Inl e))"
proof (induction its arbitrary: db res db')
  case Nil
  then show ?case by auto
next
  case (Cons item rest)
  show ?case
  proof (cases "item_row en p item")
    case (Inl e)
    with Cons.prems show ?thesis by auto
  next
    case (Inr row)
    obtain res1 db1 where r1: "insert_rows en p rest (db\<lparr>sales_invoice_items := sales_invoice_items db @ [row]\<rparr>) = (res1, db1)"
      by (cases "insert_rows en p rest (db\<lparr>sales_invoice_items := sales_invoice_items db @ [row]\<rparr>)") auto
    from Cons.IH[OF r1] obtain rows where
      a: "sales_invoices db1 = sales_invoices db" "ext db1 = ext db"
        "sales_invoice_items db1 = (sales_invoice_items db @ [row]) @ rows"
        "map Inr rows = map (item_row en p) (take (length rows) rest)"
        "(case res1 of Inr rs \<Rightarrow> rs = rows \<and> length rows = length rest
                        | Inl e \<Rightarrow> length rows < length rest \<and> item_row en p (rest ! length rows) = Inl e)"
      by auto
    from Cons.prems Inr r1 have d: "db' = db1" "res = (case res1 of Inl e \<Rightarrow> Inl e | Inr rs \<Rightarrow> Inr (row # rs))"
      by (auto split: sum.splits)
    show ?thesis
      apply (rule conjI, simp add: d a)
      apply (rule conjI, simp add: d a)
      apply (rule exI[of _ "row # rows"])
      using a Inr d by (auto split: sum.splits)
  qed
qed


lemma insert_items_state:
  "insert_items en p its db = (res, db') \<Longrightarrow>
     sales_invoices db' = sales_invoices db \<and>
     (\<exists>rows. sales_invoice_items db' = sales_invoice_items db @ rows \<and>
             map Inr rows = map (item_row en p) (take (length rows) its) \<and>
             (\<forall>v. res = Inr v \<longrightarrow> length rows = length its))"
proof -
  assume a: "insert_items en p its db = (res, db')"
  obtain r1 d1 where r1: "insert_rows en p its db = (r1, d1)"
    by (cases "insert_rows en p its db") auto
  from insert_rows_state[OF r1] obtain rows where
    b: "sales_invoices d1 = sales_invoices db"
       "sales_invoice_items d1 = sales_invoice_items db @ rows"
       "map Inr rows = map (item_row en p) (take (length rows) its)"
       "(case r1 of Inr rs \<Rightarrow> rs = rows \<and> length rows = length its
                        | Inl e \<Rightarrow> length rows < length its \<and> item_row en p (its ! length rows) = Inl e)"
    by auto
  show ?thesis
  proof (cases r1)
    case (Inl e)
    with a r1 have "db' = d1" "res = Inl e" by (auto simp: insert_items_def)
    with b show ?thesis by auto
  next
    case (Inr rs)
    with a r1 have f: "fire (on_insert en) rs d1 = (res, db')" by (auto simp: insert_items_def)
    from fire_tables[OF f] b Inr show ?thesis by auto
  qed
qed

lemma body_items:
  assumes "update_sales_invoice_atomic en p u its db = (res, db')"
  shows "\<exists>rows. sales_invoice_items db' =
            filter (\<lambda>r. \<not> sql_eq (invoice_id r) p) (sales_invoice_items db) @ rows \<and>
          map Inr rows = map (item_row en p) (take (length rows) its) \<and>
          (\<forall>v. res = Inr v \<longrightarrow> length rows = length its)"
proof -
  obtain r1 d1 where s1: "delete_items en p db = (r1, d1)" by (cases "delete_items en p db") auto
  obtain r2 d2 where s2: "update_header en p u d1 = (r2, d2)" by (cases "update_header en p u d1") auto
  obtain r3 d3 where s3: "insert_items en p its d2 = (r3, d3)" by (cases "insert_items en p its d2") auto
  note t1 = delete_items_tables[OF s1] and t2 = update_header_items[OF s2]
    and t3 = insert_items_state[OF s3]
  show ?thesis
  proof (cases r1)
    case (Inl e)
    with assms s1 have "db' = d1" "res = Inl e" by (auto simp: update_sales_invoice_atomic_def)
    with t1 show ?thesis by (intro exI[of _ "[]"]) auto
  next
    case i1: (Inr v1)
    show ?thesis
    proof (cases r2)
      case (Inl e)
      with assms s1 s2 i1 have "db' = d2" "res = Inl e"
        by (auto simp: update_sales_invoice_atomic_def)
      with t1 t2 show ?thesis by (intro exI[of _ "[]"]) auto
    next
      case i2: (Inr v2)
      with assms s1 s2 s3 i1 have d: "db' = d3" "\<forall>v. res = Inr v \<longrightarrow> (\<exists>w. r3 = Inr w)"
        by (auto simp: update_sales_invoice_atomic_def split: sum.splits)
      from t3 obtain rows where
        "sales_invoice_items d3 = sales_invoice_items d2 @ rows"
        "map Inr rows = map (item_row en p) (take (length rows) its)"
        "\<forall>v. r3 = Inr v \<longrightarrow> length rows = length its" by auto
      with d t1 t2 show ?thesis by (intro exI[of _ rows]) auto
    qed
  qed
qed

lemma body_others:
  assumes "update_sales_invoice_atomic en p u its db = (res, db')" "p \<noteq> Some j"
  shows "sales_invoices db' j = sales_invoices db j"
proof -
  obtain r1 d1 where s1: "delete_items en p db = (r1, d1)" by (cases "delete_items en p db") auto
  obtain r2 d2 where s2: "update_header en p u d1 = (r2, d2)" by (cases "update_header en p u d1") auto
  obtain r3 d3 where s3: "insert_items en p its d2 = (r3, d3)" by (cases "insert_items en p its d2") auto
  note t1 = delete_items_tables[OF s1] and t2 = update_header_others[OF s2 assms(2)]
    and t3 = insert_items_state[OF s3]
  from assms(1) s1 s2 s3 have "db' = d1 \<or> db' = d2 \<or> db' = d3"
    by (auto simp: update_sales_invoice_atomic_def split: sum.splits)
  with t1 t2 t3 show ?thesis by auto
qed

lemma body_missing:
  assumes "update_sales_invoice_atomic en p u its db = (res, db')"
    "\<forall>i. p = Some i \<longrightarrow> sales_invoices db i = None"
  shows "sales_invoices db' = sales_invoices db \<and> res \<noteq> Inr (Some j)"
proof -
  obtain r1 d1 where s1: "delete_items en p db = (r1, d1)" by (cases "delete_items en p db") auto
  obtain r2 d2 where s2: "update_header en p u d1 = (r2, d2)" by (cases "update_header en p u d1") auto
  obtain r3 d3 where s3: "insert_items en p its d2 = (r3, d3)" by (cases "insert_items en p its d2") auto
  note t1 = delete_items_tables[OF s1]
  with assms(2) have "\<forall>i. p = Some i \<longrightarrow> sales_invoices d1 i = None" by simp
  from update_header_missing[OF this s2] have t2: "d2 = d1" "r2 = Inr None \<or> r2 = Inl TypeCoercionError"
    by auto
  note t3 = insert_items_state[OF s3]
  from assms(1) s1 s2 s3 t2 have "(db' = d1 \<or> db' = d3) \<and> res \<noteq> Inr (Some j)"
    by (auto simp: update_sales_invoice_atomic_def split: sum.splits)
  with t1 t2 t3 show ?thesis by auto
qed

lemma body_existing:
  assumes "update_sales_invoice_atomic en (Some i) u its db = (Inr r, db')"
    "sales_invoices db i = Some hdr"
  shows "r = Some i \<and> (\<exists>hdr'. set_clause en u hdr = Inr hdr' \<and> sales_invoices db' i = Some hdr')"
proof -
  obtain r1 d1 where s1: "delete_items en (Some i) db = (r1, d1)" by (cases "delete_items en (Some i) db") auto
  obtain r2 d2 where s2: "update_header en (Some i) u d1 = (r2, d2)" by (cases "update_header en (Some i) u d1") auto
  obtain r3 d3 where s3: "insert_items en (Some i) its d2 = (r3, d3)" by (cases "insert_items en (Some i) its d2") auto
  note t1 = delete_items_tables[OF s1]
  with assms(2) have h: "sales_invoices d1 i = Some hdr" by simp
  note t2 = update_header_existing[OF h s2] and t3 = insert_items_state[OF s3]
  from assms(1) s1 s2 s3 have "db' = d3 \<and> r2 = Inr r"
    by (auto simp: update_sales_invoice_atomic_def split: sum.splits)
  with t2 t3 show ?thesis by auto
qed

lemma apply_Inr:
  "apply_invoice_update en p u its db = (Inr r, db') \<longleftrightarrow>
     update_sales_invoice_atomic en p u its db = (Inr r, db')"
  by (auto simp: apply_invoice_update_def split: sum.splits prod.splits)

lemma apply_Inl:
  "apply_invoice_update en p u its db = (Inl e, db') \<longleftrightarrow>
     (\<exists>d. update_sales_invoice_atomic en p u its db = (Inl e, d)) \<and> db' = db"
  by (auto simp: apply_invoice_update_def split: sum.splits prod.splits)

lemma apply_cases:
  "(\<exists>e. apply_invoice_update en p u its db = (Inl e, db)) \<or>
   (\<exists>r db'. apply_invoice_update en p u its db = (Inr r, db') \<and>
            update_sales_invoice_atomic en p u its db = (Inr r, db'))"
proof (cases "update_sales_invoice_atomic en p u its db")
  case (Pair a b)
  then show ?thesis by (cases a) (simp_all add: apply_invoice_update_def)
qed

lemma cast_Inl: "cast f x = Inl e \<longleftrightarrow> coercion_fails f x \<and> e = TypeCoercionError"
  by (cases x) (auto simp: coercion_fails_def split: option.splits)

lemma cast_Inr: "cast f x = Inr v \<longleftrightarrow> \<not> coercion_fails f x \<and> v = (case x of None \<Rightarrow> None | Some s \<Rightarrow> f s)"
  by (cases x) (auto simp: coercion_fails_def split: option.splits)

lemma bind_Inl: "bind m f = Inl e \<longleftrightarrow> m = Inl e \<or> (\<exists>v. m = Inr v \<and> f v = Inl e)"
  by (cases m) auto

lemma bind_Inr: "bind m f = Inr w \<longleftrightarrow> (\<exists>v. m = Inr v \<and> f v = Inr w)"
  by (cases m) auto

lemma set_clause_Inl:
  "set_clause en u hdr = Inl e \<longleftrightarrow> patch_coercion_fails en u \<and> e = TypeCoercionError"
  unfolding set_clause_def patch_coercion_fails_def
  by (simp add: bind_Inl cast_Inl cast_Inr) blast

lemma item_row_Inl:
  "item_row en p item = Inl e \<longleftrightarrow> item_coercion_fails en item \<and> e = TypeCoercionError"
  unfolding item_row_def item_coercion_fails_def
  by (simp add: bind_Inl cast_Inl cast_Inr) blast

lemma fire_Inr_rows:
  "fire h rs db = (Inr v, db') \<Longrightarrow> r \<in> set rs \<Longrightarrow> \<exists>d s. h r d = Inr s"
proof (induction rs arbitrary: db)
  case Nil
  then show ?case by simp
next
  case (Cons a rs)
  then show ?case by (cases "h a db") (auto split: sum.splits)
qed

lemma body_hooks:
  assumes "update_sales_invoice_atomic en p u its db = (Inr r, db')"
  shows "(\<forall>x\<in>set (sales_invoice_items db). sql_eq (invoice_id x) p \<longrightarrow> (\<exists>d s. on_delete en x d = Inr s))"
    and "\<forall>i hdr. p = Some i \<and> sales_invoices db i = Some hdr \<longrightarrow> (\<exists>d s. on_update en i hdr d = Inr s)"
    and "\<forall>item\<in>set its. \<exists>row. item_row en p item = Inr row \<and> (\<exists>d s. on_insert en row d = Inr s)"
proof -
  obtain r1 d1 where s1: "delete_items en p db = (r1, d1)" by (cases "delete_items en p db") auto
  obtain r2 d2 where s2: "update_header en p u d1 = (r2, d2)" by (cases "update_header en p u d1") auto
  obtain r3 d3 where s3: "insert_items en p its d2 = (r3, d3)" by (cases "insert_items en p its d2") auto
  from assms s1 s2 s3 obtain v1 v3 where ok: "r1 = Inr v1" "r2 = Inr r" "r3 = Inr v3" "db' = d3"
    by (auto simp: update_sales_invoice_atomic_def split: sum.splits)
  from s1 ok show "\<forall>x\<in>set (sales_invoice_items db). sql_eq (invoice_id x) p \<longrightarrow> (\<exists>d s. on_delete en x d = Inr s)"
    unfolding delete_items_def by (auto dest!: fire_Inr_rows)
  have t1: "sales_invoices d1 = sales_invoices db" using delete_items_tables[OF s1] by simp
  show "\<forall>i hdr. p = Some i \<and> sales_invoices db i = Some hdr \<longrightarrow> (\<exists>d s. on_update en i hdr d = Inr s)"
  proof (intro allI impI)
    fix i hdr assume a: "p = Some i \<and> sales_invoices db i = Some hdr"
    with s2 ok t1 show "\<exists>d s. on_update en i hdr d = Inr s"
      unfolding update_header_def
      by (auto split: sum.splits prod.splits if_splits)
  qed
  obtain r4 d4 where s4: "insert_rows en p its d2 = (r4, d4)" by (cases "insert_rows en p its d2") auto
  with s3 ok obtain rows where f: "r4 = Inr rows" "fire (on_insert en) rows d4 = (Inr v3, d3)"
    by (auto simp: insert_items_def split: sum.splits)
  from insert_rows_state[OF s4] f have m: "map Inr rows = map (item_row en p) its"
    by auto
  show "\<forall>item\<in>set its. \<exists>row. item_row en p item = Inr row \<and> (\<exists>d s. on_insert en row d = Inr s)"
  proof
    fix item assume "item \<in> set its"
    then have "item_row en p item \<in> set (map Inr rows)" using m by simp
    then obtain row where "row \<in> set rows" "item_row en p item = Inr row" by auto
    with fire_Inr_rows[OF f(2)] show "\<exists>row. item_row en p item = Inr row \<and> (\<exists>d s. on_insert en row d = Inr s)"
      by blast
  qed
qed

text \<open>
  Claim C1. A call is all or nothing. Whenever the body of the procedure raises, the call
  fails with that error and the database after the call is the database before it,
  whatever state the body had reached; and each of the following makes the call fail: a
  cast of the \<^verbatim>\<open>SET\<close> list that fails on the patch of an existing invoice, a cast that fails
  on a replacement item, a replacement row that the triggers and constraints of the items
  table reject, an old row whose deletion they reject, and a header row whose update those
  of the header table reject.
\<close>

theorem apply_invoice_update_all_or_nothing:
  "(\<forall>e d. update_sales_invoice_atomic en p u its db = (Inl e, d) \<longrightarrow>
          apply_invoice_update en p u its db = (Inl e, db)) \<and>
   (\<forall>e db'. apply_invoice_update en p u its db = (Inl e, db') \<longrightarrow> db' = db) \<and>
   (\<forall>i hdr. p = Some i \<and> sales_invoices db i = Some hdr \<and> patch_coercion_fails en u \<longrightarrow>
          (\<exists>e. apply_invoice_update en p u its db = (Inl e, db))) \<and>
   (\<forall>item\<in>set its. item_coercion_fails en item \<longrightarrow>
          (\<exists>e. apply_invoice_update en p u its db = (Inl e, db))) \<and>
   (\<forall>item\<in>set its. \<forall>row. item_row en p item = Inr row \<and> (\<forall>d. \<exists>e. on_insert en row d = Inl e) \<longrightarrow>
          (\<exists>e. apply_invoice_update en p u its db = (Inl e, db))) \<and>
   (\<forall>x\<in>set (sales_invoice_items db). sql_eq (invoice_id x) p \<and> (\<forall>d. \<exists>e. on_delete en x d = Inl e) \<longrightarrow>
          (\<exists>e. apply_invoice_update en p u its db = (Inl e, db))) \<and>
   (\<forall>i hdr. p = Some i \<and> sales_invoices db i = Some hdr \<and> (\<forall>d. \<exists>e. on_update en i hdr d = Inl e) \<longrightarrow>
          (\<exists>e. apply_invoice_update en p u its db = (Inl e, db)))"
proof (intro conjI allI impI ballI)
  fix e d assume "update_sales_invoice_atomic en p u its db = (Inl e, d)"
  then show "apply_invoice_update en p u its db = (Inl e, db)"
    by (simp add: apply_invoice_update_def)
next
  fix e db' assume "apply_invoice_update en p u its db = (Inl e, db')"
  then show "db' = db" by (simp add: apply_Inl)
next
  fix i hdr assume a: "p = Some i \<and> sales_invoices db i = Some hdr \<and> patch_coercion_fails en u"
  then have c: "set_clause en u hdr = Inl TypeCoercionError" by (simp add: set_clause_Inl)
  show "\<exists>e. apply_invoice_update en p u its db = (Inl e, db)"
  proof (rule disjE[OF apply_cases[of en p u its db]])
    assume "\<exists>r db'. apply_invoice_update en p u its db = (Inr r, db') \<and>
            update_sales_invoice_atomic en p u its db = (Inr r, db')"
    then obtain r db' where b: "update_sales_invoice_atomic en (Some i) u its db = (Inr r, db')"
      using a by blast
    from body_existing[OF b] a c show ?thesis by auto
  qed
next
  fix item assume a: "item \<in> set its" "item_coercion_fails en item"
  then have c: "item_row en p item = Inl TypeCoercionError" by (simp add: item_row_Inl)
  show "\<exists>e. apply_invoice_update en p u its db = (Inl e, db)"
  proof (rule disjE[OF apply_cases[of en p u its db]])
    assume "\<exists>r db'. apply_invoice_update en p u its db = (Inr r, db') \<and>
            update_sales_invoice_atomic en p u its db = (Inr r, db')"
    then obtain r db' where b: "update_sales_invoice_atomic en p u its db = (Inr r, db')" by blast
    from body_hooks(3)[OF b] a(1) obtain row' where "item_row en p item = Inr row'" by blast
    with c show ?thesis by simp
  qed
next
  fix item row
  assume a: "item \<in> set its" "item_row en p item = Inr row \<and> (\<forall>d. \<exists>e. on_insert en row d = Inl e)"
  show "\<exists>e. apply_invoice_update en p u its db = (Inl e, db)"
  proof (rule disjE[OF apply_cases[of en p u its db]])
    assume "\<exists>r db'. apply_invoice_update en p u its db = (Inr r, db') \<and>
            update_sales_invoice_atomic en p u its db = (Inr r, db')"
    then obtain r db' where b: "update_sales_invoice_atomic en p u its db = (Inr r, db')" by blast
    from body_hooks(3)[OF b] a(1) obtain row' d s
      where "item_row en p item = Inr row'" "on_insert en row' d = Inr s" by blast
    with a(2) have "on_insert en row d = Inr s" by auto
    moreover from a(2) have "\<exists>e. on_insert en row d = Inl e" by blast
    ultimately show ?thesis by auto
  qed
next
  fix x
  assume a: "x \<in> set (sales_invoice_items db)" "sql_eq (invoice_id x) p \<and> (\<forall>d. \<exists>e. on_delete en x d = Inl e)"
  show "\<exists>e. apply_invoice_update en p u its db = (Inl e, db)"
  proof (rule disjE[OF apply_cases[of en p u its db]])
    assume "\<exists>r db'. apply_invoice_update en p u its db = (Inr r, db') \<and>
            update_sales_invoice_atomic en p u its db = (Inr r, db')"
    then obtain r db' where b: "update_sales_invoice_atomic en p u its db = (Inr r, db')" by blast
    from body_hooks(1)[OF b] a obtain d s where "on_delete en x d = Inr s" by blast
    moreover from a(2) have "\<exists>e. on_delete en x d = Inl e" by simp
    ultimately show ?thesis by auto
  qed
next
  fix i hdr
  assume a: "p = Some i \<and> sales_invoices db i = Some hdr \<and> (\<forall>d. \<exists>e. on_update en i hdr d = Inl e)"
  show "\<exists>e. apply_invoice_update en p u its db = (Inl e, db)"
  proof (rule disjE[OF apply_cases[of en p u its db]])
    assume "\<exists>r db'. apply_invoice_update en p u its db = (Inr r, db') \<and>
            update_sales_invoice_atomic en p u its db = (Inr r, db')"
    then obtain r db' where b: "update_sales_invoice_atomic en p u its db = (Inr r, db')" by blast
    from body_hooks(2)[OF b] a obtain d s where "on_update en i hdr d = Inr s" by blast
    moreover from a have "\<exists>e. on_update en i hdr d = Inl e" by simp
    ultimately show ?thesis by auto
  qed
qed

lemmas demo_defs = demo_db_def demo_env_def demo_header_def demo_old_item_def demo_item_def
lemmas stmt_defs = apply_invoice_update_def update_sales_invoice_atomic_def delete_items_def
  update_header_def insert_items_def set_clause_def item_row_def get_text_def sql_eq_def

text \<open>
  The body stops at the malformed date with the old item already deleted, and the call
  leaves the database as it was; so do a malformed quantity and a rejecting trigger.
\<close>

theorem apply_invoice_update_all_or_nothing_witness:
  "update_sales_invoice_atomic (demo_env :: (unit, unit) env) (Some 1)
      [''invoice_date'' \<mapsto> JText ''not-a-date''] [demo_item] (demo_db ())
     = (Inl TypeCoercionError, (demo_db ())\<lparr>sales_invoice_items := []\<rparr>) \<and>
   apply_invoice_update (demo_env :: (unit, unit) env) (Some 1)
      [''invoice_date'' \<mapsto> JText ''not-a-date''] [demo_item] (demo_db ())
     = (Inl TypeCoercionError, demo_db ()) \<and>
   (\<exists>e. apply_invoice_update (demo_env :: (unit, unit) env) (Some 1) Map.empty
      [demo_item, [''quantity'' \<mapsto> JText ''many'']] (demo_db ()) = (Inl e, demo_db ())) \<and>
   (\<exists>e. apply_invoice_update
      ((demo_env :: (unit, unit) env)\<lparr>on_insert := \<lambda>r db. Inl ReferentialIntegrityError\<rparr>)
      (Some 1) Map.empty [demo_item] (demo_db ()) = (Inl e, demo_db ())) \<and>
   (\<exists>e. apply_invoice_update
      ((demo_env :: (unit, unit) env)\<lparr>on_delete := \<lambda>r db. Inl ConstraintViolation\<rparr>)
      (Some 1) Map.empty [] (demo_db ()) = (Inl e, demo_db ())) \<and>
   (\<exists>e. apply_invoice_update
      ((demo_env :: (unit, unit) env)\<lparr>on_update := \<lambda>i h db. Inl ConstraintViolation\<rparr>)
      (Some 1) Map.empty [] (demo_db ()) = (Inl e, demo_db ()))"
proof (intro conjI)
  let ?u = "[''invoice_date'' \<mapsto> JText ''not-a-date'']"
  let ?en = "demo_env :: (unit, unit) env"
  show b: "update_sales_invoice_atomic ?en (Some 1) ?u [demo_item] (demo_db ())
     = (Inl TypeCoercionError, (demo_db ())\<lparr>sales_invoice_items := []\<rparr>)"
    by (simp add: stmt_defs demo_defs)
  from apply_invoice_update_all_or_nothing[of ?en "Some 1" ?u "[demo_item]" "demo_db ()"] b
  show "apply_invoice_update ?en (Some 1) ?u [demo_item] (demo_db ()) = (Inl TypeCoercionError, demo_db ())"
    by blast
  have "item_coercion_fails ?en [''quantity'' \<mapsto> JText ''many'']"
    by (simp add: item_coercion_fails_def coercion_fails_def get_text_def demo_env_def)
  with apply_invoice_update_all_or_nothing[of ?en "Some 1" Map.empty
      "[demo_item, [''quantity'' \<mapsto> JText ''many'']]" "demo_db ()"]
  show "\<exists>e. apply_invoice_update ?en (Some 1) Map.empty
      [demo_item, [''quantity'' \<mapsto> JText ''many'']] (demo_db ()) = (Inl e, demo_db ())"
    by simp
  let ?ei = "?en\<lparr>on_insert := \<lambda>r db. Inl ReferentialIntegrityError\<rparr>"
  have "\<exists>row. item_row ?ei (Some 1) demo_item = Inr row \<and> (\<forall>d. \<exists>e. on_insert ?ei row d = Inl e)"
    by (simp add: stmt_defs demo_defs)
  with apply_invoice_update_all_or_nothing[of ?ei "Some 1" Map.empty "[demo_item]" "demo_db ()"]
  show "\<exists>e. apply_invoice_update ?ei (Some 1) Map.empty [demo_item] (demo_db ()) = (Inl e, demo_db ())"
    by simp
  let ?ed = "?en\<lparr>on_delete := \<lambda>r db. Inl ConstraintViolation\<rparr>"
  have "demo_old_item \<in> set (sales_invoice_items (demo_db ())) \<and>
        sql_eq (invoice_id demo_old_item) (Some 1) \<and> (\<forall>d. \<exists>e. on_delete ?ed demo_old_item d = Inl e)"
    by (simp add: stmt_defs demo_defs)
  with apply_invoice_update_all_or_nothing[of ?ed "Some 1" Map.empty "[]" "demo_db ()"]
  show "\<exists>e. apply_invoice_update ?ed (Some 1) Map.empty [] (demo_db ()) = (Inl e, demo_db ())"
    by blast
  let ?eu = "?en\<lparr>on_update := \<lambda>i h db. Inl ConstraintViolation\<rparr>"
  have "sales_invoices (demo_db ()) 1 = Some demo_header \<and> (\<forall>d. \<exists>e. on_update ?eu 1 demo_header d = Inl e)"
    by (simp add: demo_db_def)
  with apply_invoice_update_all_or_nothing[of ?eu "Some 1" Map.empty "[]" "demo_db ()"]
  show "\<exists>e. apply_invoice_update ?eu (Some 1) Map.empty [] (demo_db ()) = (Inl e, demo_db ())"
    by blast
qed

lemma coalesce_cast:
  "\<not> coercion_fails f x \<Longrightarrow>
     (case (case x of None \<Rightarrow> None | Some s \<Rightarrow> f s) of None \<Rightarrow> old | Some v \<Rightarrow> Some v)
       = (case x of None \<Rightarrow> old | Some s \<Rightarrow> f s)"
  by (cases x) (auto simp: coercion_fails_def)

lemma coalesce_text: "coalesce x old = (case x of None \<Rightarrow> old | Some s \<Rightarrow> Some s)"
  by (cases x) auto

lemma set_clause_Inr:
  "set_clause en u hdr = Inr hdr' \<longleftrightarrow>
     \<not> patch_coercion_fails en u \<and>
     hdr' = hdr
       \<lparr>invoice_date := (case get_text u ''invoice_date'' of None \<Rightarrow> invoice_date hdr | Some s \<Rightarrow> to_date en s),
        due_date := (case get_text u ''due_date'' of None \<Rightarrow> due_date hdr | Some s \<Rightarrow> to_date en s),
        customer_id := (case get_text u ''customer_id'' of None \<Rightarrow> customer_id hdr | Some s \<Rightarrow> to_uuid en s),
        subtotal := (case get_text u ''subtotal'' of None \<Rightarrow> subtotal hdr | Some s \<Rightarrow> to_numeric en s),
        tax_amount := (case get_text u ''tax_amount'' of None \<Rightarrow> tax_amount hdr | Some s \<Rightarrow> to_numeric en s),
        total_amount := (case get_text u ''total_amount'' of None \<Rightarrow> total_amount hdr | Some s \<Rightarrow> to_numeric en s),
        discount_amount := (case get_text u ''discount_amount'' of None \<Rightarrow> discount_amount hdr | Some s \<Rightarrow> to_numeric en s),
        po_number := (case get_text u ''po_number'' of None \<Rightarrow> po_number hdr | Some s \<Rightarrow> Some s),
        payment_terms_days := (case get_text u ''payment_terms_days'' of None \<Rightarrow> payment_terms_days hdr | Some s \<Rightarrow> to_integer en s),
        notes_text := (case get_text u ''notes'' of None \<Rightarrow> notes_text hdr | Some s \<Rightarrow> Some s),
        payment_terms := (case get_text u ''payment_terms'' of None \<Rightarrow> payment_terms hdr | Some s \<Rightarrow> Some s),
        updated_at := Some (now en)\<rparr>"
  unfolding set_clause_def patch_coercion_fails_def
  by (auto simp add: bind_Inr cast_Inr coalesce_cast coalesce_text)

lemma item_row_Inr:
  "item_row en p item = Inr row \<longleftrightarrow>
     \<not> item_coercion_fails en item \<and>
     row = \<lparr>invoice_id = p,
            product_id = (case get_text item ''product_id'' of None \<Rightarrow> None | Some s \<Rightarrow> to_uuid en s),
            batch_id = (case get_text item ''batch_id'' of None \<Rightarrow> None | Some s \<Rightarrow> to_uuid en s),
            quantity = (case get_text item ''quantity'' of None \<Rightarrow> None | Some s \<Rightarrow> to_numeric en s),
            unit_price = (case get_text item ''unit_price'' of None \<Rightarrow> None | Some s \<Rightarrow> to_numeric en s),
            tax_rate = (case get_text item ''tax_rate'' of None \<Rightarrow> None | Some s \<Rightarrow> to_numeric en s),
            item_total_amount = (case get_text item ''total_amount'' of None \<Rightarrow> None | Some s \<Rightarrow> to_numeric en s),
            delivery_challan_item_id =
              (case nullif (get_text item ''delivery_challan_item_id'') '''' of None \<Rightarrow> None | Some s \<Rightarrow> to_uuid en s),
            max_quantity = (case get_text item ''max_quantity'' of None \<Rightarrow> None | Some s \<Rightarrow> to_numeric en s)\<rparr>"
  unfolding item_row_def item_coercion_fails_def
  by (auto simp add: bind_Inr cast_Inr)

lemma item_row_invoice_id: "item_row en p item = Inr row \<Longrightarrow> invoice_id row = p"
  by (simp add: item_row_Inr)

lemma fire_accepts:
  "(\<forall>r d. \<exists>s. h r d = Inr s) \<Longrightarrow> \<exists>d'. fire h rs db = (Inr (), d')"
proof (induction rs arbitrary: db)
  case Nil
  then show ?case by simp
next
  case (Cons a rs)
  from Cons.prems obtain s where "h a db = Inr s" by blast
  with Cons.IH[OF Cons.prems] show ?case by simp
qed

lemma fire_error_source:
  "fire h rs db = (Inl e, d') \<Longrightarrow> \<exists>r\<in>set rs. \<exists>d. h r d = Inl e"
proof (induction rs arbitrary: db)
  case Nil
  then show ?case by simp
next
  case (Cons a rs)
  show ?case
  proof (cases "h a db")
    case (Inl e')
    with Cons.prems have "e' = e" by simp
    with Inl show ?thesis by auto
  next
    case (Inr s)
    with Cons.prems have "fire h rs (db\<lparr>ext := s\<rparr>) = (Inl e, d')" by simp
    from Cons.IH[OF this] show ?thesis by auto
  qed
qed

lemma insert_rows_accepts:
  "\<forall>item\<in>set its. \<not> item_coercion_fails en item \<Longrightarrow>
     \<exists>rows d'. insert_rows en p its db = (Inr rows, d')"
proof (induction its arbitrary: db)
  case Nil
  then show ?case by simp
next
  case (Cons a its)
  from Cons.prems have "\<not> item_coercion_fails en a" by simp
  then obtain row where r: "item_row en p a = Inr row" by (simp add: item_row_Inr)
  from Cons.prems have "\<forall>item\<in>set its. \<not> item_coercion_fails en item" by simp
  from Cons.IH[OF this, of "db\<lparr>sales_invoice_items := sales_invoice_items db @ [row]\<rparr>"]
  obtain rows d' where
    "insert_rows en p its (db\<lparr>sales_invoice_items := sales_invoice_items db @ [row]\<rparr>) = (Inr rows, d')"
    by blast
  with r show ?case by simp
qed

lemma insert_items_error_source:
  assumes "insert_items en p its db = (Inl e, d')"
  shows "(e = TypeCoercionError \<and> (\<exists>item\<in>set its. item_coercion_fails en item)) \<or>
         (\<exists>item\<in>set its. \<exists>row s. item_row en p item = Inr row \<and> on_insert en row s = Inl e)"
proof -
  obtain r1 d1 where r1: "insert_rows en p its db = (r1, d1)"
    by (cases "insert_rows en p its db") auto
  from insert_rows_state[OF r1] obtain rows where
    st: "map Inr rows = map (item_row en p) (take (length rows) its)"
        "(case r1 of Inr rs \<Rightarrow> rs = rows \<and> length rows = length its
                   | Inl e \<Rightarrow> length rows < length its \<and> item_row en p (its ! length rows) = Inl e)"
    by auto
  show ?thesis
  proof (cases r1)
    case (Inl e')
    with assms r1 have "e' = e" by (simp add: insert_items_def)
    with Inl st(2) have "length rows < length its" "item_row en p (its ! length rows) = Inl e" by auto
    then have "its ! length rows \<in> set its" "item_coercion_fails en (its ! length rows)"
      "e = TypeCoercionError" by (auto simp: item_row_Inl)
    then show ?thesis by blast
  next
    case (Inr rs)
    with assms r1 have f: "fire (on_insert en) rs d1 = (Inl e, d')" by (simp add: insert_items_def)
    from Inr st have m: "map Inr rs = map (item_row en p) its" by auto
    from fire_error_source[OF f] obtain row s where rs: "row \<in> set rs" "on_insert en row s = Inl e"
      by blast
    from rs(1) have "Inr row \<in> set (map (item_row en p) its)" using m by (metis imageI set_map)
    then obtain item where "item \<in> set its" "item_row en p item = Inr row" by auto
    with rs(2) show ?thesis by blast
  qed
qed

lemma body_error_source:
  assumes "update_sales_invoice_atomic en p u its db = (Inl e, d)"
  shows "(e = TypeCoercionError \<and>
            (patch_coercion_fails en u \<or> (\<exists>item\<in>set its. item_coercion_fails en item))) \<or>
         (\<exists>x\<in>set (sales_invoice_items db). sql_eq (invoice_id x) p \<and> (\<exists>s. on_delete en x s = Inl e)) \<or>
         (\<exists>i hdr s. p = Some i \<and> sales_invoices db i = Some hdr \<and> on_update en i hdr s = Inl e) \<or>
         (\<exists>item\<in>set its. \<exists>row s. item_row en p item = Inr row \<and> on_insert en row s = Inl e)"
proof -
  obtain r1 d1 where s1: "delete_items en p db = (r1, d1)" by (cases "delete_items en p db") auto
  obtain r2 d2 where s2: "update_header en p u d1 = (r2, d2)" by (cases "update_header en p u d1") auto
  obtain r3 d3 where s3: "insert_items en p its d2 = (r3, d3)" by (cases "insert_items en p its d2") auto
  have t1: "sales_invoices d1 = sales_invoices db" using delete_items_tables[OF s1] by simp
  from assms s1 s2 s3 consider
    (a) "r1 = Inl e" | (b) "r2 = Inl e" | (c) "r3 = Inl e"
    by (auto simp: update_sales_invoice_atomic_def split: sum.splits)
  then show ?thesis
  proof cases
    case a
    with s1 have "fire (on_delete en) (filter (\<lambda>r. sql_eq (invoice_id r) p) (sales_invoice_items db))
       (db\<lparr>sales_invoice_items := filter (\<lambda>r. \<not> sql_eq (invoice_id r) p) (sales_invoice_items db)\<rparr>)
       = (Inl e, d1)" by (simp add: delete_items_def)
    from fire_error_source[OF this] show ?thesis by auto
  next
    case b
    show ?thesis
    proof (cases "plan_time_casts en \<and> folded_cast_fails en u")
      case True
      with s2 b have "e = TypeCoercionError" by (simp add: update_header_def)
      moreover from True have "patch_coercion_fails en u"
        by (auto simp: folded_cast_fails_def patch_coercion_fails_def)
      ultimately show ?thesis by simp
    next
      case False
      with s2 b obtain i hdr where h: "p = Some i" "sales_invoices d1 i = Some hdr"
        by (auto simp: update_header_def split: option.splits)
      from s2 b h False have "set_clause en u hdr = Inl e \<or> (\<exists>s. on_update en i hdr s = Inl e)"
        by (auto simp: update_header_def split: sum.splits)
      with h t1 show ?thesis by (auto simp: set_clause_Inl)
    qed
  next
    case c
    with s3 insert_items_error_source[of en p its d2 e d3] show ?thesis by blast
  qed
qed

lemma body_accepts:
  assumes "\<not> patch_coercion_fails en u" "\<forall>item\<in>set its. \<not> item_coercion_fails en item"
    "\<forall>x s. \<exists>t. on_delete en x s = Inr t"
    "\<forall>j h s. p = Some j \<and> sales_invoices db j = Some h \<longrightarrow> (\<exists>t. on_update en j h s = Inr t)"
    "\<forall>row s. \<exists>t. on_insert en row s = Inr t"
  shows "\<exists>r db'. update_sales_invoice_atomic en p u its db = (Inr r, db')"
proof (cases "update_sales_invoice_atomic en p u its db")
  case (Pair res d)
  show ?thesis
  proof (cases res)
    case (Inr r)
    with Pair show ?thesis by blast
  next
    case (Inl e)
    with Pair have b: "update_sales_invoice_atomic en p u its db = (Inl e, d)" by simp
    have n1: "\<not> (e = TypeCoercionError \<and>
            (patch_coercion_fails en u \<or> (\<exists>item\<in>set its. item_coercion_fails en item)))"
      using assms(1,2) by blast
    have n2: "\<not> (\<exists>x\<in>set (sales_invoice_items db). sql_eq (invoice_id x) p \<and>
            (\<exists>s. on_delete en x s = Inl e))"
    proof
      assume "\<exists>x\<in>set (sales_invoice_items db). sql_eq (invoice_id x) p \<and>
            (\<exists>s. on_delete en x s = Inl e)"
      then obtain x s where "on_delete en x s = Inl e" by blast
      moreover from assms(3) obtain t where "on_delete en x s = Inr t" by blast
      ultimately show False by simp
    qed
    have n3: "\<not> (\<exists>i hdr s. p = Some i \<and> sales_invoices db i = Some hdr \<and>
            on_update en i hdr s = Inl e)"
    proof
      assume "\<exists>i hdr s. p = Some i \<and> sales_invoices db i = Some hdr \<and>
            on_update en i hdr s = Inl e"
      then obtain i hdr s where h: "p = Some i \<and> sales_invoices db i = Some hdr"
        "on_update en i hdr s = Inl e" by blast
      moreover from assms(4) h(1) obtain t where "on_update en i hdr s = Inr t" by blast
      ultimately show False by simp
    qed
    have n4: "\<not> (\<exists>item\<in>set its. \<exists>row s. item_row en p item = Inr row \<and>
            on_insert en row s = Inl e)"
    proof
      assume "\<exists>item\<in>set its. \<exists>row s. item_row en p item = Inr row \<and>
            on_insert en row s = Inl e"
      then obtain row s where "on_insert en row s = Inl e" by blast
      moreover from assms(5) obtain t where "on_insert en row s = Inr t" by blast
      ultimately show False by simp
    qed
    from body_error_source[OF b] n1 n2 n3 n4 show ?thesis by blast
  qed
qed

lemma success_rows:
  assumes "apply_invoice_update en (Some i) u its db = (Inr r, db')"
  shows "map Inr (filter (\<lambda>x. invoice_id x = Some i) (sales_invoice_items db'))
           = map (item_row en (Some i)) its \<and>
         length (filter (\<lambda>x. invoice_id x = Some i) (sales_invoice_items db')) = length its"
proof -
  from assms have b: "update_sales_invoice_atomic en (Some i) u its db = (Inr r, db')"
    by (simp add: apply_Inr)
  from body_items[OF b] obtain rows where
    r: "sales_invoice_items db' =
          filter (\<lambda>r. \<not> sql_eq (invoice_id r) (Some i)) (sales_invoice_items db) @ rows"
       "map Inr rows = map (item_row en (Some i)) its"
    by auto
  have "\<forall>x\<in>set rows. invoice_id x = Some i"
  proof
    fix x assume "x \<in> set rows"
    then have "Inr x \<in> set (map (item_row en (Some i)) its)" using r(2) by (metis imageI set_map)
    then show "invoice_id x = Some i" by (auto dest: sym item_row_invoice_id)
  qed
  then have k: "filter (\<lambda>x. invoice_id x = Some i) rows = rows" by (simp add: filter_id_conv)
  have s: "\<And>x. sql_eq (invoice_id x) (Some i) \<longleftrightarrow> invoice_id x = Some i"
    by (simp add: sql_eq_def split: option.splits)
  have "filter (\<lambda>x. invoice_id x = Some i) (sales_invoice_items db') = rows"
    by (simp add: r(1) k s)
  with r(2) show ?thesis by (metis length_map)
qed





lemma get_text_None: "get_text u k = None \<longleftrightarrow> u k = None \<or> u k = Some JNull"
  by (auto simp: get_text_def split: option.splits jvalue.splits)

lemma get_text_Some: "get_text u k = Some s \<longleftrightarrow> u k = Some (JText s)"
  by (auto simp: get_text_def split: option.splits jvalue.splits)

lemma patched_not_cleared:
  "\<not> coercion_fails f x \<Longrightarrow> old \<noteq> None \<Longrightarrow> (case x of None \<Rightarrow> old | Some s \<Rightarrow> f s) \<noteq> None"
  by (cases x) (auto simp: coercion_fails_def)

text \<open>
  Claim C3. After a call that succeeds on an existing invoice, every cast of the patch
  succeeded, and each of the eleven columns holds the coerced patch value when its key is
  in the patch with a value other than \<^verbatim>\<open>null\<close>, and its prior value when the key is
  absent or \<^verbatim>\<open>null\<close>; \<^verbatim>\<open>updated_at\<close> is the current time whatever the patch; and no column
  that held a value is \<^verbatim>\<open>NULL\<close> afterwards. The spec's \<open>customer_or_supplier_id\<close> is the
  column and key \<^verbatim>\<open>customer_id\<close>.
\<close>

theorem header_patch_semantics:
  assumes "sales_invoices db i = Some hdr"
    and "apply_invoice_update en (Some i) u its db = (Inr r, db')"
  shows "\<not> patch_coercion_fails en u \<and> (\<exists>hdr'. sales_invoices db' i = Some hdr' \<and>
     invoice_date hdr' = (case u ''invoice_date'' of Some (JText s) \<Rightarrow> to_date en s | _ \<Rightarrow> invoice_date hdr) \<and>
     due_date hdr' = (case u ''due_date'' of Some (JText s) \<Rightarrow> to_date en s | _ \<Rightarrow> due_date hdr) \<and>
     customer_id hdr' = (case u ''customer_id'' of Some (JText s) \<Rightarrow> to_uuid en s | _ \<Rightarrow> customer_id hdr) \<and>
     subtotal hdr' = (case u ''subtotal'' of Some (JText s) \<Rightarrow> to_numeric en s | _ \<Rightarrow> subtotal hdr) \<and>
     tax_amount hdr' = (case u ''tax_amount'' of Some (JText s) \<Rightarrow> to_numeric en s | _ \<Rightarrow> tax_amount hdr) \<and>
     total_amount hdr' = (case u ''total_amount'' of Some (JText s) \<Rightarrow> to_numeric en s | _ \<Rightarrow> total_amount hdr) \<and>
     discount_amount hdr' = (case u ''discount_amount'' of Some (JText s) \<Rightarrow> to_numeric en s | _ \<Rightarrow> discount_amount hdr) \<and>
     po_number hdr' = (case u ''po_number'' of Some (JText s) \<Rightarrow> Some s | _ \<Rightarrow> po_number hdr) \<and>
     payment_terms_days hdr' = (case u ''payment_terms_days'' of Some (JText s) \<Rightarrow> to_integer en s | _ \<Rightarrow> payment_terms_days hdr) \<and>
     notes_text hdr' = (case u ''notes'' of Some (JText s) \<Rightarrow> Some s | _ \<Rightarrow> notes_text hdr) \<and>
     payment_terms hdr' = (case u ''payment_terms'' of Some (JText s) \<Rightarrow> Some s | _ \<Rightarrow> payment_terms hdr) \<and>
     updated_at hdr' = Some (now en) \<and>
     (invoice_date hdr \<noteq> None \<longrightarrow> invoice_date hdr' \<noteq> None) \<and>
     (due_date hdr \<noteq> None \<longrightarrow> due_date hdr' \<noteq> None) \<and>
     (customer_id hdr \<noteq> None \<longrightarrow> customer_id hdr' \<noteq> None) \<and>
     (subtotal hdr \<noteq> None \<longrightarrow> subtotal hdr' \<noteq> None) \<and>
     (tax_amount hdr \<noteq> None \<longrightarrow> tax_amount hdr' \<noteq> None) \<and>
     (total_amount hdr \<noteq> None \<longrightarrow> total_amount hdr' \<noteq> None) \<and>
     (discount_amount hdr \<noteq> None \<longrightarrow> discount_amount hdr' \<noteq> None) \<and>
     (po_number hdr \<noteq> None \<longrightarrow> po_number hdr' \<noteq> None) \<and>
     (payment_terms_days hdr \<noteq> None \<longrightarrow> payment_terms_days hdr' \<noteq> None) \<and>
     (notes_text hdr \<noteq> None \<longrightarrow> notes_text hdr' \<noteq> None) \<and>
     (payment_terms hdr \<noteq> None \<longrightarrow> payment_terms hdr' \<noteq> None))"
proof -
  from assms(2) have b: "update_sales_invoice_atomic en (Some i) u its db = (Inr r, db')"
    by (simp add: apply_Inr)
  from body_existing[OF b assms(1)] obtain hdr' where
    h: "set_clause en u hdr = Inr hdr'" "sales_invoices db' i = Some hdr'" by blast
  from h(1) have ok: "\<not> patch_coercion_fails en u" by (simp add: set_clause_Inr)
  have g: "\<And>k old f. (case u k of Some (JText s) \<Rightarrow> f s | _ \<Rightarrow> old)
       = (case get_text u k of None \<Rightarrow> old | Some s \<Rightarrow> f s)"
    by (simp add: get_text_def split: option.splits jvalue.splits)
  have v: "invoice_date hdr' = (case get_text u ''invoice_date'' of None \<Rightarrow> invoice_date hdr | Some s \<Rightarrow> to_date en s)"
    "due_date hdr' = (case get_text u ''due_date'' of None \<Rightarrow> due_date hdr | Some s \<Rightarrow> to_date en s)"
    "customer_id hdr' = (case get_text u ''customer_id'' of None \<Rightarrow> customer_id hdr | Some s \<Rightarrow> to_uuid en s)"
    "subtotal hdr' = (case get_text u ''subtotal'' of None \<Rightarrow> subtotal hdr | Some s \<Rightarrow> to_numeric en s)"
    "tax_amount hdr' = (case get_text u ''tax_amount'' of None \<Rightarrow> tax_amount hdr | Some s \<Rightarrow> to_numeric en s)"
    "total_amount hdr' = (case get_text u ''total_amount'' of None \<Rightarrow> total_amount hdr | Some s \<Rightarrow> to_numeric en s)"
    "discount_amount hdr' = (case get_text u ''discount_amount'' of None \<Rightarrow> discount_amount hdr | Some s \<Rightarrow> to_numeric en s)"
    "po_number hdr' = (case get_text u ''po_number'' of None \<Rightarrow> po_number hdr | Some s \<Rightarrow> Some s)"
    "payment_terms_days hdr' = (case get_text u ''payment_terms_days'' of None \<Rightarrow> payment_terms_days hdr | Some s \<Rightarrow> to_integer en s)"
    "notes_text hdr' = (case get_text u ''notes'' of None \<Rightarrow> notes_text hdr | Some s \<Rightarrow> Some s)"
    "payment_terms hdr' = (case get_text u ''payment_terms'' of None \<Rightarrow> payment_terms hdr | Some s \<Rightarrow> Some s)"
    "updated_at hdr' = Some (now en)"
    using h(1) by (simp_all add: set_clause_Inr)
  have t: "\<And>x old. old \<noteq> None \<longrightarrow> (case x of None \<Rightarrow> old | Some s \<Rightarrow> Some (s::string)) \<noteq> None"
    by (simp split: option.splits)
  from ok have c: "\<not> coercion_fails (to_date en) (get_text u ''invoice_date'')"
     "\<not> coercion_fails (to_date en) (get_text u ''due_date'')"
     "\<not> coercion_fails (to_uuid en) (get_text u ''customer_id'')"
     "\<not> coercion_fails (to_numeric en) (get_text u ''subtotal'')"
     "\<not> coercion_fails (to_numeric en) (get_text u ''tax_amount'')"
     "\<not> coercion_fails (to_numeric en) (get_text u ''total_amount'')"
     "\<not> coercion_fails (to_numeric en) (get_text u ''discount_amount'')"
     "\<not> coercion_fails (to_integer en) (get_text u ''payment_terms_days'')"
    by (simp_all add: patch_coercion_fails_def)
  show ?thesis
    apply (rule conjI[OF ok])
    apply (rule exI[of _ hdr'])
    apply (simp only: g v h(2))
    apply (intro conjI impI refl patched_not_cleared c t[rule_format])
    apply (simp_all add: coercion_fails_def split: option.splits)
    done
qed


text \<open>
  A patch of two keys and an explicit \<^verbatim>\<open>null\<close>: the two columns change, \<^verbatim>\<open>notes\<close> and the
  dates keep their values, \<^verbatim>\<open>updated_at\<close> is stamped.
\<close>

theorem header_patch_semantics_witness:
  "sales_invoices (demo_db ()) 1 = Some demo_header \<and>
   fst (apply_invoice_update (demo_env :: (unit, unit) env) (Some 1)
          [''po_number'' \<mapsto> JText ''PO-123'', ''discount_amount'' \<mapsto> JText ''50.00'',
           ''notes'' \<mapsto> JNull] [] (demo_db ())) = Inr (Some 1) \<and>
   (\<exists>hdr'. sales_invoices (snd (apply_invoice_update (demo_env :: (unit, unit) env) (Some 1)
          [''po_number'' \<mapsto> JText ''PO-123'', ''discount_amount'' \<mapsto> JText ''50.00'',
           ''notes'' \<mapsto> JNull] [] (demo_db ()))) 1 = Some hdr' \<and>
      po_number hdr' = Some ''PO-123'' \<and> discount_amount hdr' = Some 50 \<and>
      notes_text hdr' = Some ''n'' \<and> invoice_date hdr' = Some 8700 \<and> due_date hdr' = None \<and>
      updated_at hdr' = Some 1000)"
proof -
  let ?u = "[''po_number'' \<mapsto> JText ''PO-123'', ''discount_amount'' \<mapsto> JText ''50.00'',
           ''notes'' \<mapsto> JNull]"
  let ?c = "apply_invoice_update (demo_env :: (unit, unit) env) (Some 1) ?u [] (demo_db ())"
  have h: "sales_invoices (demo_db ()) 1 = Some demo_header" by (simp add: demo_defs)
  have f: "fst ?c = Inr (Some 1)" by (simp add: stmt_defs demo_defs)
  then have a: "?c = (Inr (Some 1), snd ?c)" by (metis prod.collapse)
  from header_patch_semantics[OF h a] obtain hdr' where
    "sales_invoices (snd ?c) 1 = Some hdr'"
    "po_number hdr' = (case ?u ''po_number'' of Some (JText s) \<Rightarrow> Some s | _ \<Rightarrow> po_number demo_header)"
    "discount_amount hdr' = (case ?u ''discount_amount'' of Some (JText s) \<Rightarrow> to_numeric (demo_env :: (unit, unit) env) s | _ \<Rightarrow> discount_amount demo_header)"
    "notes_text hdr' = (case ?u ''notes'' of Some (JText s) \<Rightarrow> Some s | _ \<Rightarrow> notes_text demo_header)"
    "invoice_date hdr' = (case ?u ''invoice_date'' of Some (JText s) \<Rightarrow> to_date (demo_env :: (unit, unit) env) s | _ \<Rightarrow> invoice_date demo_header)"
    "due_date hdr' = (case ?u ''due_date'' of Some (JText s) \<Rightarrow> to_date (demo_env :: (unit, unit) env) s | _ \<Rightarrow> due_date demo_header)"
    "updated_at hdr' = Some (now (demo_env :: (unit, unit) env))"
    by blast
  then have "sales_invoices (snd ?c) 1 = Some hdr' \<and>
      po_number hdr' = Some ''PO-123'' \<and> discount_amount hdr' = Some 50 \<and>
      notes_text hdr' = Some ''n'' \<and> invoice_date hdr' = Some 8700 \<and> due_date hdr' = None \<and>
      updated_at hdr' = Some 1000"
    by (simp add: demo_env_def demo_header_def)
  with h f show ?thesis by blast
qed

lemma get_text_case:
  "(case get_text u k of None \<Rightarrow> old | Some s \<Rightarrow> f s)
     = (case u k of Some (JText s) \<Rightarrow> f s | _ \<Rightarrow> old)"
  by (simp add: get_text_def split: option.splits jvalue.splits)

lemma nullif_case:
  "(case nullif (get_text u k) '''' of None \<Rightarrow> None | Some s \<Rightarrow> f s)
     = (case u k of Some (JText s) \<Rightarrow> if s = '''' then None else f s | _ \<Rightarrow> None)"
  by (simp add: get_text_def split: option.splits jvalue.splits)

lemma item_row_content:
  "item_row en p item = Inr row \<Longrightarrow>
     row = \<lparr>invoice_id = p,
            product_id = (case item ''product_id'' of Some (JText s) \<Rightarrow> to_uuid en s | _ \<Rightarrow> None),
            batch_id = (case item ''batch_id'' of Some (JText s) \<Rightarrow> to_uuid en s | _ \<Rightarrow> None),
            quantity = (case item ''quantity'' of Some (JText s) \<Rightarrow> to_numeric en s | _ \<Rightarrow> None),
            unit_price = (case item ''unit_price'' of Some (JText s) \<Rightarrow> to_numeric en s | _ \<Rightarrow> None),
            tax_rate = (case item ''tax_rate'' of Some (JText s) \<Rightarrow> to_numeric en s | _ \<Rightarrow> None),
            item_total_amount =
              (case item ''total_amount'' of Some (JText s) \<Rightarrow> to_numeric en s | _ \<Rightarrow> None),
            delivery_challan_item_id =
              (case item ''delivery_challan_item_id'' of
                 Some (JText s) \<Rightarrow> if s = '''' then None else to_uuid en s | _ \<Rightarrow> None),
            max_quantity = (case item ''max_quantity'' of Some (JText s) \<Rightarrow> to_numeric en s | _ \<Rightarrow> None)\<rparr>"
  by (simp only: item_row_Inr get_text_case nullif_case)

lemma map_Inr_content:
  "map Inr rows = map f its \<Longrightarrow> (\<And>item row. f item = Inr row \<Longrightarrow> row = g item) \<Longrightarrow>
     rows = map g its"
proof (induction its arbitrary: rows)
  case Nil
  then show ?case by simp
next
  case (Cons a its)
  from Cons.prems(1) obtain r rest where e: "rows = r # rest" by (cases rows) auto
  with Cons.prems(1) have h: "f a = Inr r" "map Inr rest = map f its" by auto
  from Cons.IH[OF h(2) Cons.prems(2)] Cons.prems(2)[OF h(1)] e show ?case by simp
qed

text \<open>
  Claim C4. After a call that succeeds, the rows of the invoice are, in the order of the
  replacement items, one row for each item and no other: the row of an item is bound to
  the invoice and holds, column by column, the cast of the item's value for that column,
  \<^verbatim>\<open>NULL\<close> where the key is absent or \<^verbatim>\<open>null\<close> (and for an empty
  \<^verbatim>\<open>delivery_challan_item_id\<close>); whatever rows the invoice had before are gone.
\<close>

theorem full_item_replacement:
  assumes "apply_invoice_update en (Some i) u its db = (Inr r, db')"
  shows "filter (\<lambda>x. invoice_id x = Some i) (sales_invoice_items db')
           = map (\<lambda>item.
               \<lparr>invoice_id = Some i,
                product_id = (case item ''product_id'' of Some (JText s) \<Rightarrow> to_uuid en s | _ \<Rightarrow> None),
                batch_id = (case item ''batch_id'' of Some (JText s) \<Rightarrow> to_uuid en s | _ \<Rightarrow> None),
                quantity = (case item ''quantity'' of Some (JText s) \<Rightarrow> to_numeric en s | _ \<Rightarrow> None),
                unit_price = (case item ''unit_price'' of Some (JText s) \<Rightarrow> to_numeric en s | _ \<Rightarrow> None),
                tax_rate = (case item ''tax_rate'' of Some (JText s) \<Rightarrow> to_numeric en s | _ \<Rightarrow> None),
                item_total_amount =
                  (case item ''total_amount'' of Some (JText s) \<Rightarrow> to_numeric en s | _ \<Rightarrow> None),
                delivery_challan_item_id =
                  (case item ''delivery_challan_item_id'' of
                     Some (JText s) \<Rightarrow> if s = '''' then None else to_uuid en s | _ \<Rightarrow> None),
                max_quantity =
                  (case item ''max_quantity'' of Some (JText s) \<Rightarrow> to_numeric en s | _ \<Rightarrow> None)\<rparr>) its \<and>
         length (filter (\<lambda>x. invoice_id x = Some i) (sales_invoice_items db')) = length its \<and>
         map Inr (filter (\<lambda>x. invoice_id x = Some i) (sales_invoice_items db'))
           = map (item_row en (Some i)) its \<and>
         (\<forall>item\<in>set its. \<not> item_coercion_fails en item)"
proof -
  note s = success_rows[OF assms]
  from s have m: "map Inr (filter (\<lambda>x. invoice_id x = Some i) (sales_invoice_items db'))
           = map (item_row en (Some i)) its" by simp
  have c: "\<forall>item\<in>set its. \<not> item_coercion_fails en item"
  proof
    fix item assume "item \<in> set its"
    then have "item_row en (Some i) item \<in> set (map Inr (filter (\<lambda>x. invoice_id x = Some i)
        (sales_invoice_items db')))" using m by simp
    then obtain row where "item_row en (Some i) item = Inr row" by auto
    then show "\<not> item_coercion_fails en item" by (simp add: item_row_Inr)
  qed
  from map_Inr_content[OF m item_row_content] s c show ?thesis by simp
qed

text \<open>
  An invoice with one item, replaced by two: the two rows stored, column by column.
\<close>

theorem full_item_replacement_witness:
  "fst (apply_invoice_update (demo_env :: (unit, unit) env) (Some 1) Map.empty
          [demo_item, demo_item(''quantity'' \<mapsto> JText ''3'')] (demo_db ())) = Inr (Some 1) \<and>
   filter (\<lambda>x. invoice_id x = Some 1) (sales_invoice_items (demo_db ())) = [demo_old_item] \<and>
   filter (\<lambda>x. invoice_id x = Some 1)
     (sales_invoice_items (snd (apply_invoice_update (demo_env :: (unit, unit) env) (Some 1)
        Map.empty [demo_item, demo_item(''quantity'' \<mapsto> JText ''3'')] (demo_db ()))))
   = [\<lparr>invoice_id = Some 1, product_id = Some 2, batch_id = None, quantity = Some 5,
       unit_price = Some 3, tax_rate = None, item_total_amount = None,
       delivery_challan_item_id = None, max_quantity = None\<rparr>,
      \<lparr>invoice_id = Some 1, product_id = Some 2, batch_id = None, quantity = Some 3,
       unit_price = Some 3, tax_rate = None, item_total_amount = None,
       delivery_challan_item_id = None, max_quantity = None\<rparr>]"
proof -
  let ?its = "[demo_item, demo_item(''quantity'' \<mapsto> JText ''3'')]"
  let ?c = "apply_invoice_update (demo_env :: (unit, unit) env) (Some 1) Map.empty ?its (demo_db ())"
  have f: "fst ?c = Inr (Some 1)" by (simp add: stmt_defs demo_defs)
  then have a: "?c = (Inr (Some 1), snd ?c)" by (metis prod.collapse)
  have o: "filter (\<lambda>x. invoice_id x = Some 1) (sales_invoice_items (demo_db ())) = [demo_old_item]"
    by (simp add: demo_defs)
  note t = full_item_replacement[OF a, THEN conjunct1]
  have "filter (\<lambda>x. invoice_id x = Some 1) (sales_invoice_items (snd ?c))
   = [\<lparr>invoice_id = Some 1, product_id = Some 2, batch_id = None, quantity = Some 5,
       unit_price = Some 3, tax_rate = None, item_total_amount = None,
       delivery_challan_item_id = None, max_quantity = None\<rparr>,
      \<lparr>invoice_id = Some 1, product_id = Some 2, batch_id = None, quantity = Some 3,
       unit_price = Some 3, tax_rate = None, item_total_amount = None,
       delivery_challan_item_id = None, max_quantity = None\<rparr>]"
    unfolding t by (simp add: demo_item_def demo_env_def)
  with f o show ?thesis by blast
qed

lemma insert_rows_cong:
  "map (item_row en p) its = map (item_row en p) its' \<Longrightarrow>
     insert_rows en p its db = insert_rows en p its' db"
proof (induction its arbitrary: its' db)
  case Nil
  then show ?case by simp
next
  case (Cons a its)
  then obtain b rest where e: "its' = b # rest" by (cases its') auto
  with Cons.prems have h: "item_row en p a = item_row en p b"
    "map (item_row en p) its = map (item_row en p) rest" by auto
  from Cons.IH[OF h(2)] h(1) e show ?case by (simp split: sum.splits)
qed

lemma apply_items_cong:
  assumes "map (item_row en p) its = map (item_row en p) its'"
  shows "apply_invoice_update en p u its db = apply_invoice_update en p u its' db"
proof -
  have e: "insert_items en p its = insert_items en p its'"
    by (rule ext) (simp add: insert_items_def insert_rows_cong[OF assms])
  show ?thesis unfolding apply_invoice_update_def update_sales_invoice_atomic_def e ..
qed

lemma set_clause_cong:
  assumes "\<forall>k\<in>updatable_keys. u' k = u k"
  shows "set_clause en u' hdr = set_clause en u hdr"
proof -
  have "\<And>k. k \<in> updatable_keys \<Longrightarrow> get_text u' k = get_text u k"
    using assms by (simp add: get_text_def)
  then show ?thesis by (simp add: set_clause_def updatable_keys_def)
qed

lemma folded_cast_fails_cong:
  assumes "\<forall>k\<in>updatable_keys. u' k = u k"
  shows "folded_cast_fails en u' = folded_cast_fails en u"
proof -
  have "\<And>k. k \<in> updatable_keys \<Longrightarrow> get_text u' k = get_text u k"
    using assms by (simp add: get_text_def)
  then show ?thesis by (simp add: folded_cast_fails_def updatable_keys_def)
qed

lemma apply_patch_cong:
  assumes "\<forall>k\<in>updatable_keys. u' k = u k"
  shows "apply_invoice_update en p u' its db = apply_invoice_update en p u its db"
proof -
  have c: "set_clause en u' = set_clause en u"
    by (rule ext) (rule set_clause_cong[OF assms])
  have e: "update_header en p u' = update_header en p u"
    unfolding update_header_def c folded_cast_fails_cong[OF assms] ..
  show ?thesis unfolding apply_invoice_update_def update_sales_invoice_atomic_def e ..
qed

lemma set_clause_more:
  "set_clause en u hdr = Inr hdr' \<Longrightarrow> sales_invoice.more hdr' = sales_invoice.more hdr"
  by (simp add: set_clause_Inr)

lemma body_rows_kept:
  assumes "update_sales_invoice_atomic en p u its db = (res, db')"
  shows "(sales_invoices db j = None \<longrightarrow> sales_invoices db' j = None) \<and>
         (\<forall>h. sales_invoices db j = Some h \<longrightarrow>
            (\<exists>h'. sales_invoices db' j = Some h' \<and> sales_invoice.more h' = sales_invoice.more h))"
proof (cases "p = Some j")
  case False
  from body_others[OF assms False] show ?thesis by simp
next
  case True
  obtain r1 d1 where s1: "delete_items en p db = (r1, d1)" by (cases "delete_items en p db") auto
  obtain r2 d2 where s2: "update_header en p u d1 = (r2, d2)" by (cases "update_header en p u d1") auto
  obtain r3 d3 where s3: "insert_items en p its d2 = (r3, d3)" by (cases "insert_items en p its d2") auto
  note t1 = delete_items_tables[OF s1] and t3 = insert_items_state[OF s3]
  from assms s1 s2 s3 have d: "db' = d1 \<or> db' = d2 \<or> db' = d3"
    by (auto simp: update_sales_invoice_atomic_def split: sum.splits)
  have k: "(sales_invoices d1 j = None \<longrightarrow> sales_invoices d2 j = None) \<and>
         (\<forall>h. sales_invoices d1 j = Some h \<longrightarrow>
            (\<exists>h'. sales_invoices d2 j = Some h' \<and> sales_invoice.more h' = sales_invoice.more h))"
  proof (cases "sales_invoices d1 j")
    case None
    with True update_header_missing[of p d1 en u r2 d2] s2 show ?thesis by auto
  next
    case (Some h)
    from s2 True have s2': "update_header en (Some j) u d1 = (r2, d2)" by simp
    from update_header_existing[OF Some s2'] Some show ?thesis
      by (auto dest: set_clause_more)
  qed
  from d t1 t3 k show ?thesis by auto
qed

text \<open>
  Claim C9. Two patches that agree on the eleven keys give the same call, so a patch and
  its restriction to those keys do; and a call neither creates nor removes a header row,
  and leaves every column outside the twelve it assigns as it was.
\<close>

theorem unlisted_keys_ignored:
  "((\<forall>k\<in>updatable_keys. u' k = u k) \<longrightarrow>
      apply_invoice_update en p u' its db = apply_invoice_update en p u its db) \<and>
   apply_invoice_update en p (u |` updatable_keys) its db = apply_invoice_update en p u its db \<and>
   (\<forall>res db' j. apply_invoice_update en p u its db = (res, db') \<longrightarrow>
      (sales_invoices db j = None \<longrightarrow> sales_invoices db' j = None) \<and>
      (\<forall>h. sales_invoices db j = Some h \<longrightarrow>
         (\<exists>h'. sales_invoices db' j = Some h' \<and> sales_invoice.more h' = sales_invoice.more h)))"
proof (intro conjI allI impI)
  assume "\<forall>k\<in>updatable_keys. u' k = u k"
  then show "apply_invoice_update en p u' its db = apply_invoice_update en p u its db"
    by (rule apply_patch_cong)
next
  show "apply_invoice_update en p (u |` updatable_keys) its db = apply_invoice_update en p u its db"
    by (rule apply_patch_cong) simp
next
  fix res db' j
  assume a: "apply_invoice_update en p u its db = (res, db')"
  have "(sales_invoices db j = None \<longrightarrow> sales_invoices db' j = None) \<and>
      (\<forall>h. sales_invoices db j = Some h \<longrightarrow>
         (\<exists>h'. sales_invoices db' j = Some h' \<and> sales_invoice.more h' = sales_invoice.more h))"
  proof (cases res)
    case (Inl e)
    with a have "db' = db" by (simp add: apply_Inl)
    then show ?thesis by simp
  next
    case (Inr r)
    with a have "update_sales_invoice_atomic en p u its db = (Inr r, db')" by (simp add: apply_Inr)
    from body_rows_kept[OF this] show ?thesis .
  qed
  then show "sales_invoices db j = None \<Longrightarrow> sales_invoices db' j = None"
    and "\<And>h. sales_invoices db j = Some h \<Longrightarrow>
         \<exists>h'. sales_invoices db' j = Some h' \<and> sales_invoice.more h' = sales_invoice.more h"
    by auto
qed

text \<open>
  A patch with the unlisted key \<open>status\<close> behaves as the patch without it.
\<close>

theorem unlisted_keys_ignored_witness:
  "apply_invoice_update (demo_env :: (unit, unit) env) (Some 1)
      [''po_number'' \<mapsto> JText ''PO-123'', ''status'' \<mapsto> JText ''paid''] [demo_item] (demo_db ())
   = apply_invoice_update (demo_env :: (unit, unit) env) (Some 1)
      [''po_number'' \<mapsto> JText ''PO-123''] [demo_item] (demo_db ())"
proof -
  have h: "\<forall>k\<in>updatable_keys. [''po_number'' \<mapsto> JText ''PO-123'', ''status'' \<mapsto> JText ''paid''] k
        = [''po_number'' \<mapsto> JText ''PO-123''] k"
    by (simp add: updatable_keys_def)
  with unlisted_keys_ignored[of "[''po_number'' \<mapsto> JText ''PO-123'', ''status'' \<mapsto> JText ''paid'']"
      "[''po_number'' \<mapsto> JText ''PO-123'']" "demo_env :: (unit, unit) env" "Some 1" "[demo_item]" "demo_db ()"]
  show ?thesis by blast
qed

text \<open>
  Claim C10. A call on the invoice \<open>i\<close> leaves every other header row as it was, and the
  item rows that are not bound to \<open>i\<close> as they were and in their order; after a call that
  succeeds the items table is those rows followed by new rows that are all bound to \<open>i\<close>.
\<close>

theorem other_invoices_untouched:
  assumes "apply_invoice_update en (Some i) u its db = (res, db')"
  shows "(\<forall>j. j \<noteq> i \<longrightarrow> sales_invoices db' j = sales_invoices db j) \<and>
         filter (\<lambda>x. invoice_id x \<noteq> Some i) (sales_invoice_items db')
           = filter (\<lambda>x. invoice_id x \<noteq> Some i) (sales_invoice_items db) \<and>
         (\<forall>v. res = Inr v \<longrightarrow>
            (\<exists>rows. sales_invoice_items db'
                      = filter (\<lambda>x. invoice_id x \<noteq> Some i) (sales_invoice_items db) @ rows \<and>
                    (\<forall>x\<in>set rows. invoice_id x = Some i)))"
proof (cases res)
  case (Inl e)
  with assms have "db' = db" by (simp add: apply_Inl)
  with Inl show ?thesis by simp
next
  case (Inr r)
  with assms have b: "update_sales_invoice_atomic en (Some i) u its db = (Inr r, db')"
    by (simp add: apply_Inr)
  have s: "\<And>x. sql_eq (invoice_id x) (Some i) \<longleftrightarrow> invoice_id x = Some i"
    by (simp add: sql_eq_def split: option.splits)
  from body_items[OF b] obtain rows where
    r: "sales_invoice_items db' =
          filter (\<lambda>x. invoice_id x \<noteq> Some i) (sales_invoice_items db) @ rows"
       "map Inr rows = map (item_row en (Some i)) its"
    by (auto simp: s)
  have a: "\<forall>x\<in>set rows. invoice_id x = Some i"
  proof
    fix x assume "x \<in> set rows"
    then have "Inr x \<in> set (map (item_row en (Some i)) its)" using r(2) by (metis imageI set_map)
    then show "invoice_id x = Some i" by (auto dest: sym item_row_invoice_id)
  qed
  then have k: "filter (\<lambda>x. invoice_id x \<noteq> Some i) rows = []" by (simp add: filter_empty_conv)
  have "\<forall>j. j \<noteq> i \<longrightarrow> sales_invoices db' j = sales_invoices db j"
    using body_others[OF b] by simp
  moreover have "filter (\<lambda>x. invoice_id x \<noteq> Some i) (sales_invoice_items db')
           = filter (\<lambda>x. invoice_id x \<noteq> Some i) (sales_invoice_items db)"
    by (simp add: r(1) k)
  ultimately show ?thesis using r(1) a by blast
qed

text \<open>
  A call on the identifier 7 leaves the header and the item of invoice 1 alone.
\<close>

theorem other_invoices_untouched_witness:
  "fst (apply_invoice_update (demo_env :: (unit, unit) env) (Some 7) Map.empty [demo_item] (demo_db ()))
     = Inr None \<and>
   sales_invoices (snd (apply_invoice_update (demo_env :: (unit, unit) env) (Some 7) Map.empty
      [demo_item] (demo_db ()))) 1 = Some demo_header \<and>
   filter (\<lambda>x. invoice_id x \<noteq> Some 7)
     (sales_invoice_items (snd (apply_invoice_update (demo_env :: (unit, unit) env) (Some 7) Map.empty
        [demo_item] (demo_db ())))) = [demo_old_item]"
proof -
  let ?c = "apply_invoice_update (demo_env :: (unit, unit) env) (Some 7) Map.empty [demo_item] (demo_db ())"
  have f: "fst ?c = Inr None" by (simp add: stmt_defs demo_defs)
  then have a: "?c = (Inr None, snd ?c)" by (metis prod.collapse)
  from other_invoices_untouched[OF a]
  have "sales_invoices (snd ?c) 1 = sales_invoices (demo_db ()) 1"
    "filter (\<lambda>x. invoice_id x \<noteq> Some 7) (sales_invoice_items (snd ?c))
       = filter (\<lambda>x. invoice_id x \<noteq> Some 7) (sales_invoice_items (demo_db ()))"
    by simp_all
  then have "sales_invoices (snd ?c) 1 = Some demo_header"
    "filter (\<lambda>x. invoice_id x \<noteq> Some 7) (sales_invoice_items (snd ?c)) = [demo_old_item]"
    by (simp_all add: demo_db_def demo_old_item_def)
  with f show ?thesis by blast
qed

lemma stored_row_nth:
  assumes "apply_invoice_update en (Some i) u its db = (Inr r, db')" "k < length its"
  shows "length (filter (\<lambda>x. invoice_id x = Some i) (sales_invoice_items db')) = length its \<and>
         item_row en (Some i) (its ! k)
           = Inr (filter (\<lambda>x. invoice_id x = Some i) (sales_invoice_items db') ! k)"
proof -
  let ?st = "filter (\<lambda>x. invoice_id x = Some i) (sales_invoice_items db')"
  from success_rows[OF assms(1)] have m: "map Inr ?st = map (item_row en (Some i)) its"
    and l: "length ?st = length its" by simp_all
  from assms(2) l have "map Inr ?st ! k = (Inr (?st ! k) :: error + sales_invoice_item)" by simp
  moreover from assms(2) have "map (item_row en (Some i)) its ! k = item_row en (Some i) (its ! k)"
    by simp
  ultimately show ?thesis using m l by simp
qed

text \<open>
  Claim C6. An item whose \<^verbatim>\<open>delivery_challan_item_id\<close> is the empty text gives the same row,
  and the same call, as the item with that key set to \<^verbatim>\<open>null\<close>; after a call that succeeds,
  the row stored for such an item has \<^verbatim>\<open>NULL\<close> in that column, and the row stored for an item
  with a text that is not empty has the \<^verbatim>\<open>uuid\<close> the text is cast to; a text the cast rejects
  raises. The cast of that column never fails on the empty text, whatever the input
  function does with it, and a call whose only item holds nothing but the empty reference
  succeeds when the patch is well formed and the triggers accept.
\<close>

theorem empty_challan_reference_is_null:
  "(get_text item ''delivery_challan_item_id'' = Some '''' \<longrightarrow>
      item_row en p item = item_row en p (item(''delivery_challan_item_id'' \<mapsto> JNull)) \<and>
      (\<forall>row. item_row en p item = Inr row \<longrightarrow> delivery_challan_item_id row = None) \<and>
      apply_invoice_update en p u (xs @ item # ys) db
        = apply_invoice_update en p u (xs @ item(''delivery_challan_item_id'' \<mapsto> JNull) # ys) db) \<and>
   (\<forall>s. get_text item ''delivery_challan_item_id'' = Some s \<and> s \<noteq> '''' \<longrightarrow>
      (to_uuid en s = None \<longrightarrow> item_row en p item = Inl TypeCoercionError) \<and>
      (\<forall>row. item_row en p item = Inr row \<longrightarrow>
         delivery_challan_item_id row = to_uuid en s \<and> to_uuid en s \<noteq> None)) \<and>
   (\<forall>r db' k. apply_invoice_update en (Some i) u its db = (Inr r, db') \<and> k < length its \<and>
        (its ! k) ''delivery_challan_item_id'' = Some (JText '''') \<longrightarrow>
      length (filter (\<lambda>x. invoice_id x = Some i) (sales_invoice_items db')) = length its \<and>
      delivery_challan_item_id
        (filter (\<lambda>x. invoice_id x = Some i) (sales_invoice_items db') ! k) = None) \<and>
   (\<forall>r db' k s. apply_invoice_update en (Some i) u its db = (Inr r, db') \<and> k < length its \<and>
        (its ! k) ''delivery_challan_item_id'' = Some (JText s) \<and> s \<noteq> '''' \<longrightarrow>
      length (filter (\<lambda>x. invoice_id x = Some i) (sales_invoice_items db')) = length its \<and>
      delivery_challan_item_id
        (filter (\<lambda>x. invoice_id x = Some i) (sales_invoice_items db') ! k) = to_uuid en s \<and>
      to_uuid en s \<noteq> None) \<and>
   (item ''delivery_challan_item_id'' = Some (JText '''') \<longrightarrow>
      \<not> coercion_fails (to_uuid en) (nullif (get_text item ''delivery_challan_item_id'') '''') \<and>
      ((\<forall>k. k \<noteq> ''delivery_challan_item_id'' \<longrightarrow> item k = None) \<and>
       \<not> patch_coercion_fails en u \<and> (\<forall>x s. \<exists>t. on_delete en x s = Inr t) \<and>
       (\<forall>j h s. \<exists>t. on_update en j h s = Inr t) \<and> (\<forall>row s. \<exists>t. on_insert en row s = Inr t) \<longrightarrow>
         (\<exists>r db'. apply_invoice_update en p u [item] db = (Inr r, db'))))"
proof (intro conjI allI impI)
  assume a: "get_text item ''delivery_challan_item_id'' = Some ''''"
  let ?item' = "item(''delivery_challan_item_id'' \<mapsto> JNull)"
  have g: "\<And>k. k \<noteq> ''delivery_challan_item_id'' \<Longrightarrow> get_text ?item' k = get_text item k"
    by (simp add: get_text_def)
  have n: "nullif (get_text ?item' ''delivery_challan_item_id'') ''''
           = nullif (get_text item ''delivery_challan_item_id'') ''''"
    using a by (simp add: get_text_def)
  show e: "item_row en p item = item_row en p ?item'"
    unfolding item_row_def n by (simp add: g)
  show "\<And>row. item_row en p item = Inr row \<Longrightarrow> delivery_challan_item_id row = None"
    using a by (simp add: item_row_Inr)
  show "apply_invoice_update en p u (xs @ item # ys) db
        = apply_invoice_update en p u (xs @ ?item' # ys) db"
    by (rule apply_items_cong) (simp add: e)
next
  fix s assume a: "get_text item ''delivery_challan_item_id'' = Some s \<and> s \<noteq> ''''"
  and n: "to_uuid en s = None"
  from a n have "item_coercion_fails en item"
    by (simp add: item_coercion_fails_def coercion_fails_def)
  then show "item_row en p item = Inl TypeCoercionError" by (simp add: item_row_Inl)
next
  fix s row assume a: "get_text item ''delivery_challan_item_id'' = Some s \<and> s \<noteq> ''''"
  and r: "item_row en p item = Inr row"
  from r a show "delivery_challan_item_id row = to_uuid en s" by (simp add: item_row_Inr)
  from r a show "to_uuid en s \<noteq> None"
    by (auto simp: item_row_Inr item_coercion_fails_def coercion_fails_def)
next
  fix r db' k
  assume a: "apply_invoice_update en (Some i) u its db = (Inr r, db') \<and> k < length its \<and>
        (its ! k) ''delivery_challan_item_id'' = Some (JText '''')"
  from stored_row_nth[of en i u its db r db' k] a
  have l: "length (filter (\<lambda>x. invoice_id x = Some i) (sales_invoice_items db')) = length its"
    and w: "item_row en (Some i) (its ! k)
           = Inr (filter (\<lambda>x. invoice_id x = Some i) (sales_invoice_items db') ! k)"
    by simp_all
  from l show "length (filter (\<lambda>x. invoice_id x = Some i) (sales_invoice_items db')) = length its" .
  from w a show "delivery_challan_item_id
        (filter (\<lambda>x. invoice_id x = Some i) (sales_invoice_items db') ! k) = None"
    by (simp add: item_row_Inr get_text_def)
next
  fix r db' k s
  assume a: "apply_invoice_update en (Some i) u its db = (Inr r, db') \<and> k < length its \<and>
        (its ! k) ''delivery_challan_item_id'' = Some (JText s) \<and> s \<noteq> ''''"
  from stored_row_nth[of en i u its db r db' k] a
  have l: "length (filter (\<lambda>x. invoice_id x = Some i) (sales_invoice_items db')) = length its"
    and w: "item_row en (Some i) (its ! k)
           = Inr (filter (\<lambda>x. invoice_id x = Some i) (sales_invoice_items db') ! k)"
    by simp_all
  from l show "length (filter (\<lambda>x. invoice_id x = Some i) (sales_invoice_items db')) = length its" .
  from w a show "delivery_challan_item_id
        (filter (\<lambda>x. invoice_id x = Some i) (sales_invoice_items db') ! k) = to_uuid en s"
    by (simp add: item_row_Inr get_text_def)
  from w a show "to_uuid en s \<noteq> None"
    by (auto simp: item_row_Inr item_coercion_fails_def coercion_fails_def get_text_def)
next
  assume "item ''delivery_challan_item_id'' = Some (JText '''')"
  then show "\<not> coercion_fails (to_uuid en) (nullif (get_text item ''delivery_challan_item_id'') '''')"
    by (simp add: coercion_fails_def get_text_def)
next
  assume a: "item ''delivery_challan_item_id'' = Some (JText '''')"
    and ok: "(\<forall>k. k \<noteq> ''delivery_challan_item_id'' \<longrightarrow> item k = None) \<and>
       \<not> patch_coercion_fails en u \<and> (\<forall>x s. \<exists>t. on_delete en x s = Inr t) \<and>
       (\<forall>j h s. \<exists>t. on_update en j h s = Inr t) \<and> (\<forall>row s. \<exists>t. on_insert en row s = Inr t)"
  from a ok have "\<not> item_coercion_fails en item"
    by (simp add: item_coercion_fails_def coercion_fails_def get_text_def)
  then have "\<forall>it\<in>set [item]. \<not> item_coercion_fails en it" by simp
  from body_accepts[OF _ this, of u p db] ok
  have "\<exists>r db'. update_sales_invoice_atomic en p u [item] db = (Inr r, db')" by blast
  then show "\<exists>r db'. apply_invoice_update en p u [item] db = (Inr r, db')"
    by (simp add: apply_Inr)
qed

text \<open>
  The \<^verbatim>\<open>uuid\<close> input function of the example rejects the empty text; the call with the
  example item, whose reference is empty, succeeds and stores \<^verbatim>\<open>NULL\<close>; a well-formed
  reference is stored as its \<^verbatim>\<open>uuid\<close>.
\<close>

theorem empty_challan_reference_is_null_witness:
  "demo_item ''delivery_challan_item_id'' = Some (JText '''') \<and>
   to_uuid (demo_env :: (unit, unit) env) '''' = None \<and>
   fst (apply_invoice_update (demo_env :: (unit, unit) env) (Some 1) Map.empty [demo_item] (demo_db ()))
     = Inr (Some 1) \<and>
   length (filter (\<lambda>x. invoice_id x = Some 1)
     (sales_invoice_items (snd (apply_invoice_update (demo_env :: (unit, unit) env) (Some 1)
        Map.empty [demo_item] (demo_db ()))))) = 1 \<and>
   delivery_challan_item_id (filter (\<lambda>x. invoice_id x = Some 1)
     (sales_invoice_items (snd (apply_invoice_update (demo_env :: (unit, unit) env) (Some 1)
        Map.empty [demo_item] (demo_db ())))) ! 0) = None \<and>
   delivery_challan_item_id (filter (\<lambda>x. invoice_id x = Some 1)
     (sales_invoice_items (snd (apply_invoice_update (demo_env :: (unit, unit) env) (Some 1)
        Map.empty
        [[''delivery_challan_item_id'' \<mapsto> JText ''00000000-0000-0000-0000-000000000001'']]
        (demo_db ())))) ! 0) = Some 1 \<and>
   (\<exists>r db'. apply_invoice_update (demo_env :: (unit, unit) env) (Some 1) Map.empty
        [[''delivery_challan_item_id'' \<mapsto> JText '''']] (demo_db ()) = (Inr r, db'))"
proof -
  let ?en = "demo_env :: (unit, unit) env"
  let ?it = "[''delivery_challan_item_id'' \<mapsto> JText ''00000000-0000-0000-0000-000000000001'']"
  let ?em = "[''delivery_challan_item_id'' \<mapsto> JText '''']"
  let ?c = "apply_invoice_update ?en (Some 1) Map.empty [demo_item] (demo_db ())"
  let ?d = "apply_invoice_update ?en (Some 1) Map.empty [?it] (demo_db ())"
  have a: "demo_item ''delivery_challan_item_id'' = Some (JText '''')" by (simp add: demo_item_def)
  have n: "to_uuid ?en '''' = None" by (simp add: demo_env_def)
  have f: "fst ?c = Inr (Some 1)" by (simp add: stmt_defs demo_defs)
  then have c: "?c = (Inr (Some 1), snd ?c)" by (metis prod.collapse)
  have "fst ?d = Inr (Some 1)" by (simp add: stmt_defs demo_defs)
  then have d: "?d = (Inr (Some 1), snd ?d)" by (metis prod.collapse)
  have h1: "?c = (Inr (Some 1), snd ?c) \<and> 0 < length [demo_item] \<and>
      ([demo_item] ! 0) ''delivery_challan_item_id'' = Some (JText '''')"
    using c a by simp
  have h2: "?d = (Inr (Some 1), snd ?d) \<and> 0 < length [?it] \<and>
      ([?it] ! 0) ''delivery_challan_item_id'' = Some (JText ''00000000-0000-0000-0000-000000000001'') \<and>
      ''00000000-0000-0000-0000-000000000001'' \<noteq> ''''"
    using d by simp
  have h3: "(\<forall>k. k \<noteq> ''delivery_challan_item_id'' \<longrightarrow> ?em k = None) \<and>
       \<not> patch_coercion_fails ?en Map.empty \<and> (\<forall>x s. \<exists>t. on_delete ?en x s = Inr t) \<and>
       (\<forall>j h s. \<exists>t. on_update ?en j h s = Inr t) \<and> (\<forall>row s. \<exists>t. on_insert ?en row s = Inr t)"
    by (simp add: demo_env_def patch_coercion_fails_def coercion_fails_def get_text_def)
  have e: "?em ''delivery_challan_item_id'' = Some (JText '''')" by simp
  note t1 = empty_challan_reference_is_null[of demo_item ?en "Some 1" Map.empty "[]" "[]"
      "demo_db ()" 1 "[demo_item]",
      THEN conjunct2, THEN conjunct2, THEN conjunct1, THEN spec, THEN spec, THEN spec, THEN mp, OF h1]
  note t2 = empty_challan_reference_is_null[of demo_item ?en "Some 1" Map.empty "[]" "[]"
      "demo_db ()" 1 "[?it]",
      THEN conjunct2, THEN conjunct2, THEN conjunct2, THEN conjunct1,
      THEN spec, THEN spec, THEN spec, THEN spec, THEN mp, OF h2]
  note t3 = empty_challan_reference_is_null[of ?em ?en "Some 1" Map.empty "[]" "[]"
      "demo_db ()" 1 "[]",
      THEN conjunct2, THEN conjunct2, THEN conjunct2, THEN conjunct2, THEN mp, OF e,
      THEN conjunct2, THEN mp, OF h3]
  from t1 have 1: "length (filter (\<lambda>x. invoice_id x = Some 1) (sales_invoice_items (snd ?c))) = 1"
    "delivery_challan_item_id (filter (\<lambda>x. invoice_id x = Some 1)
       (sales_invoice_items (snd ?c)) ! 0) = None"
    by simp_all
  from t2 have 2: "delivery_challan_item_id (filter (\<lambda>x. invoice_id x = Some 1)
       (sales_invoice_items (snd ?d)) ! 0) = Some 1"
    by (simp add: demo_env_def)
  from a n f 1 2 t3 show ?thesis by blast
qed

lemma item_failure_aborts:
  assumes "item \<in> set its" "item_coercion_fails en item"
  shows "\<exists>e. apply_invoice_update en p u its db = (Inl e, db)"
proof (rule disjE[OF apply_cases[of en p u its db]])
  assume "\<exists>r db'. apply_invoice_update en p u its db = (Inr r, db') \<and>
          update_sales_invoice_atomic en p u its db = (Inr r, db')"
  then obtain r db' where b: "update_sales_invoice_atomic en p u its db = (Inr r, db')" by blast
  from body_hooks(3)[OF b] assms(1) obtain row' where "item_row en p item = Inr row'" by blast
  with assms(2) show ?thesis by (simp add: item_row_Inr)
qed

text \<open>
  Claim C8. Where the \<^verbatim>\<open>uuid\<close> input function rejects the empty text, an item whose
  \<^verbatim>\<open>batch_id\<close> is the empty text raises a coercion error and any call with that item among
  its replacement items fails, rolled back; and a row that was computed stores \<^verbatim>\<open>NULL\<close> as
  its \<^verbatim>\<open>batch_id\<close> exactly when the key is absent or \<^verbatim>\<open>null\<close>.
\<close>

theorem empty_batch_id_rejected:
  "(to_uuid en '''' = None \<and> get_text item ''batch_id'' = Some '''' \<longrightarrow>
      item_row en p item = Inl TypeCoercionError \<and>
      (item \<in> set its \<longrightarrow> (\<exists>e. apply_invoice_update en p u its db = (Inl e, db)))) \<and>
   (\<forall>row. item_row en p item = Inr row \<longrightarrow>
      (batch_id row = None \<longleftrightarrow> item ''batch_id'' = None \<or> item ''batch_id'' = Some JNull))"
proof (intro conjI allI impI)
  assume a: "to_uuid en '''' = None \<and> get_text item ''batch_id'' = Some ''''"
  then have f: "item_coercion_fails en item"
    by (simp add: item_coercion_fails_def coercion_fails_def)
  then show "item_row en p item = Inl TypeCoercionError" by (simp add: item_row_Inl)
  show "item \<in> set its \<Longrightarrow> \<exists>e. apply_invoice_update en p u its db = (Inl e, db)"
    by (rule item_failure_aborts[OF _ f])
next
  fix row assume r: "item_row en p item = Inr row"
  then have "\<not> coercion_fails (to_uuid en) (get_text item ''batch_id'')"
    by (simp add: item_row_Inr item_coercion_fails_def)
  moreover from r have "batch_id row = (case get_text item ''batch_id'' of None \<Rightarrow> None | Some s \<Rightarrow> to_uuid en s)"
    by (simp add: item_row_Inr)
  ultimately have "batch_id row = None \<longleftrightarrow> get_text item ''batch_id'' = None"
    by (cases "get_text item ''batch_id''") (auto simp: coercion_fails_def)
  then show "batch_id row = None \<longleftrightarrow> item ''batch_id'' = None \<or> item ''batch_id'' = Some JNull"
    by (simp add: get_text_None)
qed

text \<open>
  The example item with an empty \<^verbatim>\<open>batch_id\<close> fails the call; without the key the row has
  no batch.
\<close>

theorem empty_batch_id_rejected_witness:
  "to_uuid (demo_env :: (unit, unit) env) '''' = None \<and>
   get_text (demo_item(''batch_id'' \<mapsto> JText '''')) ''batch_id'' = Some '''' \<and>
   item_row (demo_env :: (unit, unit) env) (Some 1) (demo_item(''batch_id'' \<mapsto> JText ''''))
     = Inl TypeCoercionError \<and>
   (\<exists>e. apply_invoice_update (demo_env :: (unit, unit) env) (Some 1) Map.empty
      [demo_item, demo_item(''batch_id'' \<mapsto> JText '''')] (demo_db ()) = (Inl e, demo_db ())) \<and>
   (\<exists>row. item_row (demo_env :: (unit, unit) env) (Some 1) demo_item = Inr row \<and> batch_id row = None)"
proof -
  let ?en = "demo_env :: (unit, unit) env"
  let ?it = "demo_item(''batch_id'' \<mapsto> JText '''')"
  have a: "to_uuid ?en '''' = None \<and> get_text ?it ''batch_id'' = Some ''''"
    by (simp add: demo_env_def get_text_def)
  have m: "?it \<in> set [demo_item, ?it]" by simp
  have b: "\<exists>row. item_row ?en (Some 1) demo_item = Inr row"
    by (simp add: stmt_defs demo_defs)
  have n: "demo_item ''batch_id'' = None" by (simp add: demo_item_def)
  from empty_batch_id_rejected[of ?en ?it "Some 1" "[demo_item, ?it]" Map.empty "demo_db ()"] a m
  have 1: "item_row ?en (Some 1) ?it = Inl TypeCoercionError"
    "\<exists>e. apply_invoice_update ?en (Some 1) Map.empty [demo_item, ?it] (demo_db ()) = (Inl e, demo_db ())"
    by blast+
  from empty_batch_id_rejected[of ?en demo_item "Some 1"] b n
  have 2: "\<exists>row. item_row ?en (Some 1) demo_item = Inr row \<and> batch_id row = None"
    by blast
  from a 1 2 show ?thesis by blast
qed

lemma case_twice:
  "(case x of None \<Rightarrow> (case x of None \<Rightarrow> old | Some s \<Rightarrow> f s) | Some s \<Rightarrow> f s)
     = (case x of None \<Rightarrow> old | Some s \<Rightarrow> f s)"
  by (cases x) auto

lemma set_clause_twice:
  assumes "set_clause en u hdr = Inr h1" "set_clause (en\<lparr>now := t\<rparr>) u h1 = Inr h2"
  shows "h2\<lparr>updated_at := None\<rparr> = h1\<lparr>updated_at := None\<rparr>"
  using assms by (simp add: set_clause_Inr case_twice cong: option.case_cong)

lemma item_row_now: "item_row (en\<lparr>now := t\<rparr>) p item = item_row en p item"
  by (simp add: item_row_def)

text \<open>
  Claim C7. A second call with the same identifier, patch and items, made after a call
  that succeeded (or at the same \<^verbatim>\<open>NOW()\<close>), leaves the items table as the first call left
  it, and the header table as well but for \<^verbatim>\<open>updated_at\<close>, whether the second call succeeds
  or fails.
\<close>

theorem apply_invoice_update_idempotent:
  assumes "apply_invoice_update en (Some i) u its db = (r1, db1)"
    and "apply_invoice_update (en\<lparr>now := t\<rparr>) (Some i) u its db1 = (r2, db2)"
    and "(\<exists>v. r1 = Inr v) \<or> t = now en"
  shows "sales_invoice_items db2 = sales_invoice_items db1 \<and>
         headers_sans_updated_at db2 = headers_sans_updated_at db1"
proof (cases r2)
  case (Inl e)
  with assms(2) have "db2 = db1" by (simp add: apply_Inl)
  then show ?thesis by simp
next
  case r2: (Inr v2)
  with assms(2) have b2: "update_sales_invoice_atomic (en\<lparr>now := t\<rparr>) (Some i) u its db1 = (Inr v2, db2)"
    by (simp add: apply_Inr)
  show ?thesis
  proof (cases r1)
    case (Inl e)
    with assms(3) have "en\<lparr>now := t\<rparr> = en" by simp
    moreover from assms(1) Inl have "db1 = db" by (simp add: apply_Inl)
    ultimately have "apply_invoice_update en (Some i) u its db = (r2, db2)"
      using assms(2) by simp
    with assms(1) have "db2 = db1" by simp
    then show ?thesis by simp
  next
    case (Inr v1)
    with assms(1) have b1: "update_sales_invoice_atomic en (Some i) u its db = (Inr v1, db1)"
      by (simp add: apply_Inr)
    have s: "\<And>x. sql_eq (invoice_id x) (Some i) \<longleftrightarrow> invoice_id x = Some i"
      by (simp add: sql_eq_def split: option.splits)
    from body_items[OF b1] obtain rows1 where
      i1: "sales_invoice_items db1 =
             filter (\<lambda>x. invoice_id x \<noteq> Some i) (sales_invoice_items db) @ rows1"
          "map Inr rows1 = map (item_row en (Some i)) its"
      by (auto simp: s)
    from body_items[OF b2] obtain rows2 where
      i2: "sales_invoice_items db2 =
             filter (\<lambda>x. invoice_id x \<noteq> Some i) (sales_invoice_items db1) @ rows2"
          "map Inr rows2 = map (item_row en (Some i)) its"
      by (auto simp: s item_row_now)
    from i1(2) i2(2) have "map Inr rows2 = (map Inr rows1 :: (error + sales_invoice_item) list)"
      by simp
    then have e: "rows2 = rows1" by simp
    have "\<forall>x\<in>set rows1. invoice_id x = Some i"
    proof
      fix x assume "x \<in> set rows1"
      then have "Inr x \<in> set (map (item_row en (Some i)) its)" using i1(2) by (metis imageI set_map)
      then show "invoice_id x = Some i" by (auto dest: sym item_row_invoice_id)
    qed
    then have k: "filter (\<lambda>x. invoice_id x \<noteq> Some i) rows1 = []" by (simp add: filter_empty_conv)
    have items: "sales_invoice_items db2 = sales_invoice_items db1"
      by (simp add: i2(1) i1(1) e k)
    have "headers_sans_updated_at db2 j = headers_sans_updated_at db1 j" for j
    proof (cases "j = i")
      case False
      then have "sales_invoices db2 j = sales_invoices db1 j"
        using body_others[OF b2, of j] by simp
      then show ?thesis by (simp add: headers_sans_updated_at_def)
    next
      case True
      show ?thesis
      proof (cases "sales_invoices db i")
        case None
        with body_missing[OF b1] have "sales_invoices db1 = sales_invoices db" by simp
        with None have "sales_invoices db1 i = None" by simp
        with body_missing[OF b2] have "sales_invoices db2 = sales_invoices db1" by simp
        then show ?thesis by (simp add: headers_sans_updated_at_def)
      next
        case (Some hdr)
        from body_existing[OF b1 Some] obtain h1 where
          h1: "set_clause en u hdr = Inr h1" "sales_invoices db1 i = Some h1" by blast
        from body_existing[OF b2 h1(2)] obtain h2 where
          h2: "set_clause (en\<lparr>now := t\<rparr>) u h1 = Inr h2" "sales_invoices db2 i = Some h2" by blast
        from set_clause_twice[OF h1(1) h2(1)] h1(2) h2(2) True show ?thesis
          by (simp add: headers_sans_updated_at_def)
      qed
    qed
    then have "headers_sans_updated_at db2 = headers_sans_updated_at db1" by (rule ext)
    with items show ?thesis by simp
  qed
qed

text \<open>
  The same update twice, at two different times.
\<close>

theorem apply_invoice_update_idempotent_witness:
  "fst (apply_invoice_update (demo_env :: (unit, unit) env) (Some 1)
          [''po_number'' \<mapsto> JText ''PO-123''] [demo_item] (demo_db ())) = Inr (Some 1) \<and>
   sales_invoice_items
     (snd (apply_invoice_update ((demo_env :: (unit, unit) env)\<lparr>now := 2000\<rparr>) (Some 1)
        [''po_number'' \<mapsto> JText ''PO-123''] [demo_item]
        (snd (apply_invoice_update (demo_env :: (unit, unit) env) (Some 1)
           [''po_number'' \<mapsto> JText ''PO-123''] [demo_item] (demo_db ())))))
   = sales_invoice_items
       (snd (apply_invoice_update (demo_env :: (unit, unit) env) (Some 1)
           [''po_number'' \<mapsto> JText ''PO-123''] [demo_item] (demo_db ()))) \<and>
   headers_sans_updated_at
     (snd (apply_invoice_update ((demo_env :: (unit, unit) env)\<lparr>now := 2000\<rparr>) (Some 1)
        [''po_number'' \<mapsto> JText ''PO-123''] [demo_item]
        (snd (apply_invoice_update (demo_env :: (unit, unit) env) (Some 1)
           [''po_number'' \<mapsto> JText ''PO-123''] [demo_item] (demo_db ())))))
   = headers_sans_updated_at
       (snd (apply_invoice_update (demo_env :: (unit, unit) env) (Some 1)
           [''po_number'' \<mapsto> JText ''PO-123''] [demo_item] (demo_db ())))"
proof -
  let ?en = "demo_env :: (unit, unit) env"
  let ?u = "[''po_number'' \<mapsto> JText ''PO-123'']"
  let ?c1 = "apply_invoice_update ?en (Some 1) ?u [demo_item] (demo_db ())"
  let ?c2 = "apply_invoice_update (?en\<lparr>now := 2000\<rparr>) (Some 1) ?u [demo_item] (snd ?c1)"
  have f: "fst ?c1 = Inr (Some 1)" by (simp add: stmt_defs demo_defs)
  then have a: "?c1 = (Inr (Some 1), snd ?c1)" by (metis prod.collapse)
  have b: "?c2 = (fst ?c2, snd ?c2)" by simp
  have c: "(\<exists>v. Inr (Some (1::uuid)) = (Inr v :: error + uuid option)) \<or> 2000 = now ?en" by simp
  from apply_invoice_update_idempotent[OF a b c] f show ?thesis by simp
qed

lemma fire_journal:
  "fire (\<lambda>r db. Inr (ext db @ [f r])) rows db = (Inr (), db\<lparr>ext := ext db @ map f rows\<rparr>)"
  by (induction rows arbitrary: db) simp_all

lemma journal_delete:
  "delete_items (with_journal en) p db = (res, db') \<Longrightarrow>
     ext db' = ext db @ map Deleted (filter (\<lambda>r. sql_eq (invoice_id r) p) (sales_invoice_items db))"
  by (auto simp: delete_items_def with_journal_def fire_journal)

lemma journal_update:
  assumes "update_header (with_journal en) p u db = (res, db')"
  shows "\<exists>us. ext db' = ext db @ map Updated us"
proof (cases "plan_time_casts (with_journal en) \<and> folded_cast_fails (with_journal en) u")
  case True
  with assms have "ext db' = ext db @ map Updated []" by (simp add: update_header_def)
  then show ?thesis by blast
next
  case nf: False
  show ?thesis
  proof (cases "\<exists>i hdr hdr'. p = Some i \<and> sales_invoices db i = Some hdr \<and>
      set_clause (with_journal en) u hdr = Inr hdr'")
    case True
    then obtain i hdr hdr' where h: "p = Some i" "sales_invoices db i = Some hdr"
      "set_clause (with_journal en) u hdr = Inr hdr'" by blast
    have "on_update (with_journal en) = (\<lambda>i h db. Inr (ext db @ [Updated i]))"
      by (simp add: with_journal_def)
    with h assms nf have "ext db' = ext db @ map Updated [i]"
      by (auto simp: update_header_def)
    then show ?thesis by blast
  next
    case False
    with assms nf have "ext db' = ext db @ map Updated []"
      by (auto simp: update_header_def split: option.splits sum.splits)
    then show ?thesis by blast
  qed
qed

lemma journal_insert:
  assumes "insert_items (with_journal en) p its db = (res, db')"
  shows "\<exists>ins. ext db' = ext db @ map Inserted ins \<and>
           (\<forall>v. res = Inr v \<longrightarrow> map Inr ins = map (item_row (with_journal en) p) its)"
proof -
  obtain r1 d1 where r1: "insert_rows (with_journal en) p its db = (r1, d1)"
    by (cases "insert_rows (with_journal en) p its db") auto
  note st = insert_rows_state[OF r1]
  show ?thesis
  proof (cases r1)
    case (Inl e)
    with assms r1 have "db' = d1" "res = Inl e" by (auto simp: insert_items_def)
    with st have "ext db' = ext db @ map Inserted []" by simp
    with \<open>res = Inl e\<close> show ?thesis by blast
  next
    case (Inr rows)
    with assms r1 have "fire (on_insert (with_journal en)) rows d1 = (res, db')"
      by (auto simp: insert_items_def)
    then have "ext db' = ext d1 @ map Inserted rows"
      by (auto simp: with_journal_def fire_journal)
    moreover from st Inr have "ext d1 = ext db" "map Inr rows = map (item_row (with_journal en) p) its"
      by auto
    ultimately show ?thesis by auto
  qed
qed

lemma journal_body:
  assumes "update_sales_invoice_atomic (with_journal en) p u its db = (res, db')"
  shows "\<exists>us ins. ext db' = ext db
            @ map Deleted (filter (\<lambda>r. sql_eq (invoice_id r) p) (sales_invoice_items db))
            @ map Updated us @ map Inserted ins \<and>
          (\<forall>v. res = Inr v \<longrightarrow> map Inr ins = map (item_row (with_journal en) p) its)"
proof -
  let ?e = "with_journal en"
  let ?old = "filter (\<lambda>r. sql_eq (invoice_id r) p) (sales_invoice_items db)"
  obtain r1 d1 where s1: "delete_items ?e p db = (r1, d1)" by (cases "delete_items ?e p db") auto
  obtain r2 d2 where s2: "update_header ?e p u d1 = (r2, d2)" by (cases "update_header ?e p u d1") auto
  obtain r3 d3 where s3: "insert_items ?e p its d2 = (r3, d3)" by (cases "insert_items ?e p its d2") auto
  note j1 = journal_delete[OF s1]
  from journal_update[OF s2] obtain us where j2: "ext d2 = ext d1 @ map Updated us" by blast
  from journal_insert[OF s3] obtain ins where j3: "ext d3 = ext d2 @ map Inserted ins"
    "\<forall>v. r3 = Inr v \<longrightarrow> map Inr ins = map (item_row ?e p) its" by blast
  from assms s1 s2 s3 consider
    (a) "db' = d1" "\<exists>e. res = Inl e" | (b) "db' = d2" "\<exists>e. res = Inl e"
    | (c) "db' = d3" "\<exists>e. res = Inl e" | (d) "db' = d3" "\<exists>v. r3 = Inr v"
    by (auto simp: update_sales_invoice_atomic_def split: sum.splits)
  then show ?thesis
  proof cases
    case a
    with j1 have "ext db' = ext db @ map Deleted ?old @ map Updated [] @ map Inserted []" by simp
    with a(2) show ?thesis by blast
  next
    case b
    with j1 j2 have "ext db' = ext db @ map Deleted ?old @ map Updated us @ map Inserted []" by simp
    with b(2) show ?thesis by blast
  next
    case c
    with j1 j2 j3 have "ext db' = ext db @ map Deleted ?old @ map Updated us @ map Inserted ins" by simp
    with c(2) show ?thesis by blast
  next
    case d
    with j1 j2 j3 have "ext db' = ext db @ map Deleted ?old @ map Updated us @ map Inserted ins"
      "map Inr ins = map (item_row ?e p) its" by auto
    then show ?thesis by blast
  qed
qed

lemma stock_replace:
  assumes old: "filter (\<lambda>r. sql_eq (invoice_id r) (Some i)) (sales_invoice_items db) = [old]"
    "product_id old = Some pr" "quantity old = Some X" "ext db pr = Q"
    and new: "item_row (with_stock_ledger en) (Some i) item = Inr new"
    "product_id new = Some pr" "quantity new = Some Y"
    "max_quantity new = None \<or> (\<exists>m. max_quantity new = Some m \<and> Y \<le> m)"
    and ok: "\<not> patch_coercion_fails (with_stock_ledger en) u" "Y \<le> Q + X"
  shows "\<exists>r db'. apply_invoice_update (with_stock_ledger en) (Some i) u [item] db = (Inr r, db') \<and>
           ext db' pr = Q + X - Y"
proof -
  let ?e = "with_stock_ledger en"
  let ?d0 = "db\<lparr>sales_invoice_items := filter (\<lambda>r. \<not> sql_eq (invoice_id r) (Some i)) (sales_invoice_items db)\<rparr>"
  let ?d1 = "?d0\<lparr>ext := (ext db)(pr := Q + X)\<rparr>"
  have s1: "delete_items ?e (Some i) db = (Inr (), ?d1)"
    using old by (simp add: delete_items_def with_stock_ledger_def stock_on_delete_def)
  obtain r2 d2 where s2: "update_header ?e (Some i) u ?d1 = (r2, d2)"
    by (cases "update_header ?e (Some i) u ?d1") auto
  from ok(1) have nf: "\<not> folded_cast_fails ?e u"
    by (auto simp: folded_cast_fails_def patch_coercion_fails_def)
  have u2: "(\<exists>v. r2 = Inr v) \<and> ext d2 = ext ?d1"
  proof (cases "sales_invoices ?d1 i")
    case None
    with s2 nf show ?thesis by (auto simp: update_header_def)
  next
    case (Some hdr)
    from ok(1) obtain hdr' where "set_clause ?e u hdr = Inr hdr'"
      by (simp add: set_clause_Inr)
    moreover have "on_update ?e = (\<lambda>i h db. Inr (ext db))" by (simp add: with_stock_ledger_def)
    ultimately show ?thesis using Some s2 nf
      by (auto simp: update_header_def)
  qed
  then obtain v where r2: "r2 = Inr v" by blast
  have e2: "ext d2 pr = Q + X" using u2 by simp
  let ?d3 = "d2\<lparr>sales_invoice_items := sales_invoice_items d2 @ [new]\<rparr>"
  have s3: "insert_items ?e (Some i) [item] d2 = (Inr (), ?d3\<lparr>ext := (ext d2)(pr := Q + X - Y)\<rparr>)"
    using new ok(2) e2
    by (auto simp: insert_items_def with_stock_ledger_def stock_on_insert_def)
  from s1 s2 r2 s3 have "apply_invoice_update ?e (Some i) u [item] db
      = (Inr v, ?d3\<lparr>ext := (ext d2)(pr := Q + X - Y)\<rparr>)"
    by (simp add: apply_invoice_update_def update_sales_invoice_atomic_def)
  then show ?thesis by auto
qed

text \<open>
  Claim C5. With triggers that journal the row events, the events of any run of the body,
  also one that raises, are the deletions of the old rows of the invoice, then the header
  update if any, then the insertions: no insertion comes before a deletion. And on the
  stock ledger, for an invoice whose only item has quantity \<open>X\<close> of a product with \<open>Q\<close> on
  hand, replaced by one well-formed item of quantity \<open>Y\<close> of that product, within its
  ceiling if it has one, the call succeeds whenever \<open>Y \<le> Q + X\<close>, and leaves
  \<open>Q + X - Y\<close> on hand.
\<close>

theorem deletes_before_inserts:
  "(\<forall>res dj'. update_sales_invoice_atomic (with_journal ej) p uj its dj = (res, dj') \<longrightarrow>
      (\<exists>us ins. ext dj' = ext dj
            @ map Deleted (filter (\<lambda>r. sql_eq (invoice_id r) p) (sales_invoice_items dj))
            @ map Updated us @ map Inserted ins \<and>
          (\<forall>v. res = Inr v \<longrightarrow> map Inr ins = map (item_row (with_journal ej) p) its))) \<and>
   (filter (\<lambda>r. sql_eq (invoice_id r) (Some i)) (sales_invoice_items db) = [old] \<and>
    product_id old = Some pr \<and> quantity old = Some X \<and> ext db pr = Q \<and>
    item_row (with_stock_ledger en) (Some i) item = Inr new \<and>
    product_id new = Some pr \<and> quantity new = Some Y \<and>
    (max_quantity new = None \<or> (\<exists>m. max_quantity new = Some m \<and> Y \<le> m)) \<and>
    \<not> patch_coercion_fails (with_stock_ledger en) u \<and> Y \<le> Q + X \<longrightarrow>
      (\<exists>r db'. apply_invoice_update (with_stock_ledger en) (Some i) u [item] db = (Inr r, db') \<and>
           ext db' pr = Q + X - Y))"
proof (intro conjI allI impI)
  fix res dj'
  assume "update_sales_invoice_atomic (with_journal ej) p uj its dj = (res, dj')"
  then show "\<exists>us ins. ext dj' = ext dj
            @ map Deleted (filter (\<lambda>r. sql_eq (invoice_id r) p) (sales_invoice_items dj))
            @ map Updated us @ map Inserted ins \<and>
          (\<forall>v. res = Inr v \<longrightarrow> map Inr ins = map (item_row (with_journal ej) p) its)"
    by (rule journal_body)
next
  assume a: "filter (\<lambda>r. sql_eq (invoice_id r) (Some i)) (sales_invoice_items db) = [old] \<and>
    product_id old = Some pr \<and> quantity old = Some X \<and> ext db pr = Q \<and>
    item_row (with_stock_ledger en) (Some i) item = Inr new \<and>
    product_id new = Some pr \<and> quantity new = Some Y \<and>
    (max_quantity new = None \<or> (\<exists>m. max_quantity new = Some m \<and> Y \<le> m)) \<and>
    \<not> patch_coercion_fails (with_stock_ledger en) u \<and> Y \<le> Q + X"
  show "\<exists>r db'. apply_invoice_update (with_stock_ledger en) (Some i) u [item] db = (Inr r, db') \<and>
           ext db' pr = Q + X - Y"
    by (rule stock_replace[of i db old pr X Q en item new Y u]) (simp_all add: a)
qed

text \<open>
  Three on hand, an old item of three, a new item of five: more than is on hand before the
  deletion, and the call succeeds and leaves one.
\<close>

theorem deletes_before_inserts_witness:
  "(\<exists>us ins. ext (snd (update_sales_invoice_atomic (with_journal demo_env) (Some 1) Map.empty
        [demo_item] (demo_db [])))
      = Deleted demo_old_item # map Updated us @ map Inserted ins) \<and>
   ext (demo_db (\<lambda>_. 3 :: numeric)) 2 < 5 \<and>
   (\<exists>r db'. apply_invoice_update (with_stock_ledger demo_env) (Some 1) Map.empty [demo_item]
        (demo_db (\<lambda>_. 3)) = (Inr r, db') \<and> ext db' 2 = 1)"
proof -
  let ?cj = "update_sales_invoice_atomic (with_journal demo_env) (Some 1) Map.empty
        [demo_item] (demo_db [])"
  let ?db = "demo_db (\<lambda>_. 3 :: numeric)"
  let ?new = "\<lparr>invoice_id = Some 1, product_id = Some 2, batch_id = None, quantity = Some 5,
      unit_price = Some 3, tax_rate = None, item_total_amount = None,
      delivery_challan_item_id = None, max_quantity = None\<rparr>"
  have j: "?cj = (fst ?cj, snd ?cj)" by simp
  have o: "filter (\<lambda>r. sql_eq (invoice_id r) (Some 1)) (sales_invoice_items (demo_db ([] :: event list)))
      = [demo_old_item]"
    by (simp add: demo_defs sql_eq_def)
  have e: "ext (demo_db ([] :: event list)) = []" by (simp add: demo_db_def)
  note d = deletes_before_inserts[THEN conjunct1, of demo_env "Some 1" Map.empty "[demo_item]" "demo_db []"]
  from d j obtain us ins where "ext (snd ?cj) = ext (demo_db ([] :: event list))
            @ map Deleted (filter (\<lambda>r. sql_eq (invoice_id r) (Some 1))
                (sales_invoice_items (demo_db ([] :: event list))))
            @ map Updated us @ map Inserted ins"
    by blast
  then have "ext (snd ?cj) = Deleted demo_old_item # map Updated us @ map Inserted ins"
    by (simp only: o e list.map append.simps)
  then have 1: "\<exists>us ins. ext (snd ?cj) = Deleted demo_old_item # map Updated us @ map Inserted ins"
    by blast
  have h: "filter (\<lambda>r. sql_eq (invoice_id r) (Some 1)) (sales_invoice_items ?db) = [demo_old_item] \<and>
    product_id demo_old_item = Some 2 \<and> quantity demo_old_item = Some 3 \<and> ext ?db 2 = 3 \<and>
    item_row (with_stock_ledger demo_env) (Some 1) demo_item = Inr ?new \<and>
    product_id ?new = Some 2 \<and> quantity ?new = Some 5 \<and>
    (max_quantity ?new = None \<or> (\<exists>m. max_quantity ?new = Some m \<and> 5 \<le> m)) \<and>
    \<not> patch_coercion_fails (with_stock_ledger demo_env) Map.empty \<and> (5 :: numeric) \<le> 3 + 3"
    by (simp add: stmt_defs demo_defs with_stock_ledger_def patch_coercion_fails_def coercion_fails_def)
  from deletes_before_inserts[of _ _ _ _ _ 1 ?db demo_old_item 2 3 3 demo_env demo_item ?new 5 Map.empty] h
  have "\<exists>r db'. apply_invoice_update (with_stock_ledger demo_env) (Some 1) Map.empty [demo_item] ?db
        = (Inr r, db') \<and> ext db' 2 = 3 + 3 - 5"
    by blast
  then have 2: "\<exists>r db'. apply_invoice_update (with_stock_ledger demo_env) (Some 1) Map.empty [demo_item] ?db
        = (Inr r, db') \<and> ext db' 2 = 1"
    by simp
  have 3: "ext ?db 2 < 5" by (simp add: demo_db_def)
  from 1 2 3 show ?thesis by blast
qed

end
